theory Spec2Isabelle
  imports Main
begin

section \<open>JavaScript values and coercions\<close>

text \<open>
  The connector is JavaScript: values are dynamically typed and most operators coerce.
  The values the connector handles are modelled by \<open>jsval\<close>. Numbers are the integers
  and \<open>NaN\<close> (fractions and infinities do not occur in the functions modelled here);
  a plain object is its ordered list of own properties; a \<open>Date\<close> is either invalid or
  the local calendar time its getters report.
\<close>

datatype js_error =
    Error string "int option"   \<comment> \<open>\<open>new Error(message)\<close>, with its \<open>statusCode\<close> when one is set\<close>
  | TypeError
  | SyntaxError

datatype jsnum = Num int | NaN

record local_time =
  fullYear :: int       \<comment> \<open>\<open>getFullYear()\<close>\<close>
  month0 :: int         \<comment> \<open>\<open>getMonth()\<close>, January is 0\<close>
  dayOfMonth :: int     \<comment> \<open>\<open>getDate()\<close>\<close>
  hours :: int
  minutes :: int
  seconds :: int
  milliseconds :: int

datatype jsdate = InvalidDate | ValidDate local_time

datatype jsval =
    JUndefined
  | JNull
  | JBool bool
  | JNumber jsnum
  | JStr string
  | JArr "jsval list"
  | JObj "(string \<times> jsval) list"
  | JDate jsdate

text \<open>
  Built-ins of the JavaScript runtime that the connector calls and whose results are not
  computed here are parameters: the JSON codec, the \<open>Date\<close> constructor and printer, the
  conversion of a string to a number, the upper-casing of a string, and the text of a
  number whose magnitude exceeds \<open>2\<^sup>5\<^sup>3\<close> (JavaScript writes the shortest digits that
  read back as the same double, and the exponent form from \<open>10\<^sup>2\<^sup>1\<close> on). A number is
  a double with an integer value, or \<open>NaN\<close>.
\<close>

record runtime =
  JSON_parse :: "string \<Rightarrow> js_error + jsval"
  JSON_stringify :: "jsval \<Rightarrow> jsval"
  Date_new :: "jsval \<Rightarrow> jsdate"
  Date_toString :: "jsdate \<Rightarrow> string"
  Date_valueOf :: "jsdate \<Rightarrow> jsnum"
  StringToNumber :: "string \<Rightarrow> jsnum"
  toUpperCase :: "string \<Rightarrow> string"
  large_number_text :: "int \<Rightarrow> string"

subsection \<open>Numbers as text\<close>

definition digit_char :: "nat \<Rightarrow> char" where
  "digit_char d = ''0123456789'' ! d"

fun show_nat :: "nat \<Rightarrow> string" where
  "show_nat n = (if n < 10 then [digit_char n] else show_nat (n div 10) @ [digit_char (n mod 10)])"

declare show_nat.simps [simp del]

text \<open>
  The decimal digits of an integer, with a minus sign when it is negative. JavaScript
  writes an integer that way when its magnitude is at most \<open>2\<^sup>5\<^sup>3\<close>; the calendar fields
  of a \<open>Date\<close> are far below that (its year lies within 275760 of zero).
\<close>

definition show_int :: "int \<Rightarrow> string" where
  "show_int i = (if i < 0 then CHR ''-'' # show_nat (nat (- i)) else show_nat (nat i))"

definition show_num :: "jsnum \<Rightarrow> string" where
  "show_num x = (case x of Num i \<Rightarrow> show_int i | NaN \<Rightarrow> ''NaN'')"

text \<open>
  The text of a number, as \<open>String(x)\<close> and string concatenation give it: all the
  digits up to \<open>2\<^sup>5\<^sup>3\<close> in magnitude, the runtime's text beyond.
\<close>

definition number_text :: "runtime \<Rightarrow> jsnum \<Rightarrow> string" where
  "number_text rt x =
     (case x of
        Num i \<Rightarrow> if \<bar>i\<bar> \<le> 9007199254740992 then show_int i else large_number_text rt i
      | NaN \<Rightarrow> ''NaN'')"

definition is_digit :: "char \<Rightarrow> bool" where
  "is_digit c = (c \<in> set ''0123456789'')"

definition digit_val :: "char \<Rightarrow> nat" where
  "digit_val c = of_char c - 48"

text \<open>\<open>Number(s)\<close> for a string \<open>s\<close> of decimal digits (a capture of \<open>\d+\<close>).\<close>

definition Number_digits :: "string \<Rightarrow> nat" where
  "Number_digits ds = foldl (\<lambda>acc c. 10 * acc + digit_val c) 0 ds"

subsection \<open>Coercions\<close>

definition join_strings :: "string \<Rightarrow> string list \<Rightarrow> string" where
  "join_strings sep xs = (case xs of [] \<Rightarrow> [] | y # ys \<Rightarrow> foldl (\<lambda>acc s. acc @ sep @ s) y ys)"

fun ToString :: "runtime \<Rightarrow> jsval \<Rightarrow> string" where
  "ToString rt JUndefined = ''undefined''"
| "ToString rt JNull = ''null''"
| "ToString rt (JBool b) = (if b then ''true'' else ''false'')"
| "ToString rt (JNumber x) = number_text rt x"
| "ToString rt (JStr s) = s"
| "ToString rt (JArr xs) =
     join_strings '',''
       (map (\<lambda>x. if x = JUndefined \<or> x = JNull then [] else ToString rt x) xs)"
| "ToString rt (JObj kvs) = ''[object Object]''"
| "ToString rt (JDate d) = Date_toString rt d"

fun ToBoolean :: "jsval \<Rightarrow> bool" where
  "ToBoolean JUndefined = False"
| "ToBoolean JNull = False"
| "ToBoolean (JBool b) = b"
| "ToBoolean (JNumber x) = (x \<noteq> NaN \<and> x \<noteq> Num 0)"
| "ToBoolean (JStr s) = (s \<noteq> [])"
| "ToBoolean (JArr xs) = True"
| "ToBoolean (JObj kvs) = True"
| "ToBoolean (JDate d) = True"

fun ToNumber :: "runtime \<Rightarrow> jsval \<Rightarrow> jsnum" where
  "ToNumber rt JUndefined = NaN"
| "ToNumber rt JNull = Num 0"
| "ToNumber rt (JBool b) = (if b then Num 1 else Num 0)"
| "ToNumber rt (JNumber x) = x"
| "ToNumber rt (JStr s) = StringToNumber rt s"
| "ToNumber rt (JArr xs) = StringToNumber rt (ToString rt (JArr xs))"
| "ToNumber rt (JObj kvs) = StringToNumber rt (ToString rt (JObj kvs))"
| "ToNumber rt (JDate d) = Date_valueOf rt d"

text \<open>\<open>a || b\<close>: the first operand when it is truthy, the second otherwise.\<close>

definition or_js :: "jsval \<Rightarrow> jsval \<Rightarrow> jsval" where
  "or_js a b = (if ToBoolean a then a else b)"

section \<open>Identifier escaping\<close>

text \<open>
  \<open>name.replace(/["]/g, '""')\<close>: every double quote doubled. JavaScript strings are
  immutable, so \<open>replace\<close> returns the new string and leaves \<open>name\<close> as it was.
\<close>

definition replace_quotes :: "string \<Rightarrow> string" where
  "replace_quotes name = concat (map (\<lambda>c. if c = CHR 0x22 then [CHR 0x22, CHR 0x22] else [c]) name)"

text \<open>
  \<open>escapeName\<close> (lib/informix.js, lines 166-171). The statement
  \<open>name.replace(/["]/g, '""');\<close> drops the string \<open>replace\<close> returns; the function
  then wraps the unchanged \<open>name\<close>. A falsy name (the empty string) is returned as it is.
\<close>

definition escapeName :: "string \<Rightarrow> string" where
  "escapeName name =
     (if name = [] then name
      else (let dropped = replace_quotes name in [CHR 0x22] @ name @ [CHR 0x22]))"

text \<open>What the specification asks of the routine: double the quotes, then wrap.\<close>

definition escapeName_spec :: "string \<Rightarrow> string" where
  "escapeName_spec name = [CHR 0x22] @ replace_quotes name @ [CHR 0x22]"

section \<open>Parameterized statements\<close>

text \<open>
  Modelled from the spec: \<open>ParameterizedSQL\<close> of the loopback-connector library, which
  is not among the sources. A statement is its SQL text and its ordered parameter values;
  merging two statements concatenates both texts, with a separator, and both parameter
  sequences, in order. The separator is written only after a non-empty text, and
  \<open>merge\<close> separates with one space unless told otherwise.
\<close>

record psql =
  sql :: string
  params :: "jsval list"

definition new_psql :: "string \<Rightarrow> psql" where
  "new_psql s = \<lparr>sql = s, params = []\<rparr>"

definition append_psql :: "psql \<Rightarrow> psql \<Rightarrow> string \<Rightarrow> psql" where
  "append_psql cur stmt sep =
     \<lparr>sql = (if sql cur \<noteq> [] then sql cur @ sep else sql cur) @ sql stmt,
      params = params cur @ params stmt\<rparr>"

definition join_psql :: "psql list \<Rightarrow> string \<Rightarrow> psql" where
  "join_psql sqls sep = foldl (\<lambda>ps s. append_psql ps s sep) (new_psql []) sqls"

definition merge :: "psql \<Rightarrow> psql \<Rightarrow> psql" where
  "merge cur ps = append_psql cur ps '' ''"

definition merge_str :: "psql \<Rightarrow> string \<Rightarrow> psql" where
  "merge_str cur s = merge cur (new_psql s)"

definition merge_list :: "psql \<Rightarrow> psql list \<Rightarrow> psql" where
  "merge_list cur pss = merge cur (join_psql pss '' '')"

section \<open>Column values\<close>

subsection \<open>The timestamp literal\<close>

definition getFullYear :: "jsdate \<Rightarrow> jsnum" where
  "getFullYear d = (case d of InvalidDate \<Rightarrow> NaN | ValidDate t \<Rightarrow> Num (fullYear t))"

definition getMonth :: "jsdate \<Rightarrow> jsnum" where
  "getMonth d = (case d of InvalidDate \<Rightarrow> NaN | ValidDate t \<Rightarrow> Num (month0 t))"

definition getDate :: "jsdate \<Rightarrow> jsnum" where
  "getDate d = (case d of InvalidDate \<Rightarrow> NaN | ValidDate t \<Rightarrow> Num (dayOfMonth t))"

definition getHours :: "jsdate \<Rightarrow> jsnum" where
  "getHours d = (case d of InvalidDate \<Rightarrow> NaN | ValidDate t \<Rightarrow> Num (hours t))"

definition getMinutes :: "jsdate \<Rightarrow> jsnum" where
  "getMinutes d = (case d of InvalidDate \<Rightarrow> NaN | ValidDate t \<Rightarrow> Num (minutes t))"

definition getSeconds :: "jsdate \<Rightarrow> jsnum" where
  "getSeconds d = (case d of InvalidDate \<Rightarrow> NaN | ValidDate t \<Rightarrow> Num (seconds t))"

definition getMilliseconds :: "jsdate \<Rightarrow> jsnum" where
  "getMilliseconds d = (case d of InvalidDate \<Rightarrow> NaN | ValidDate t \<Rightarrow> Num (milliseconds t))"

definition num_add :: "jsnum \<Rightarrow> int \<Rightarrow> jsnum" where
  "num_add x k = (case x of Num i \<Rightarrow> Num (i + k) | NaN \<Rightarrow> NaN)"

text \<open>
  \<open>fillZeros(v)\<close> is \<open>v < 10 ? '0' + v : v\<close>; a comparison with \<open>NaN\<close> is false. The
  result is concatenated into a string, so it is given as text.
\<close>

definition fillZeros :: "jsnum \<Rightarrow> string" where
  "fillZeros v =
     (case v of Num i \<Rightarrow> (if i < 10 then ''0'' @ show_int i else show_int i)
      | NaN \<Rightarrow> show_num NaN)"

text \<open>\<open>dateToInformix\<close> (lib/informix.js, lines 173-192).\<close>

definition dateToInformix :: "jsdate \<Rightarrow> string" where
  "dateToInformix val =
     (let dateStr = show_num (getFullYear val) @ ''-''
            @ fillZeros (num_add (getMonth val) 1) @ ''-''
            @ fillZeros (getDate val) @ ''-''
            @ fillZeros (getHours val) @ ''.''
            @ fillZeros (getMinutes val) @ ''.''
            @ fillZeros (getSeconds val) @ ''.'';
          ms = getMilliseconds val;
          ms' = (case ms of
                   Num i \<Rightarrow> (if i < 10 then ''00000'' @ show_int i
                             else if i < 100 then ''0000'' @ show_int i
                             else ''000'' @ show_int i)
                 | NaN \<Rightarrow> ''000'' @ show_num NaN)
      in dateStr @ ms')"

text \<open>
  The literal format of the specification, \<open>YYYY-MM-DD-HH.MM.SS.ffffff\<close>: a text matches
  a shape when it has the shape's length, a digit wherever the shape has \<open>d\<close> and the
  shape's own character elsewhere.
\<close>

definition timestamp_shape :: string where
  "timestamp_shape = ''dddd-dd-dd-dd.dd.dd.dddddd''"

definition matches_shape :: "string \<Rightarrow> string \<Rightarrow> bool" where
  "matches_shape shape s =
     list_all2 (\<lambda>p c. if p = CHR ''d'' then is_digit c else c = p) shape s"

text \<open>A number zero-padded on the left to a width.\<close>

definition zero_pad :: "nat \<Rightarrow> nat \<Rightarrow> string" where
  "zero_pad w n = replicate (w - length (show_nat n)) (CHR ''0'') @ show_nat n"

text \<open>The ranges of the calendar fields of a valid \<open>Date\<close>.\<close>

definition valid_time :: "local_time \<Rightarrow> bool" where
  "valid_time t =
     (0 \<le> month0 t \<and> month0 t \<le> 11 \<and> 1 \<le> dayOfMonth t \<and> dayOfMonth t \<le> 31
      \<and> 0 \<le> hours t \<and> hours t \<le> 23 \<and> 0 \<le> minutes t \<and> minutes t \<le> 59
      \<and> 0 \<le> seconds t \<and> seconds t \<le> 59 \<and> 0 \<le> milliseconds t \<and> milliseconds t \<le> 999)"

subsection \<open>To and from column values\<close>

text \<open>
  A property descriptor, as far as the connector reads it: \<open>prop.type.name\<close>, whether
  \<open>prop.type\<close> is the \<open>String\<close> constructor, the value list of an enumerated type
  (\<open>prop.type._string\<close>), the truth of \<open>prop.id\<close> and \<open>prop.autoIncrement\<close>, the
  declared length, native type, precision, scale, character set and collation, and the
  dialect's override block \<open>prop.informix\<close>. A field that is not set is \<open>JUndefined\<close>; an
  absent descriptor or block is \<open>None\<close>.
\<close>

record dialect_block =
  block_dataType :: jsval
  dataLength :: jsval
  dataPrecision :: jsval
  dataScale :: jsval

record property =
  type_name :: string
  type_is_String :: bool
  enum_string :: jsval
  prop_id :: bool
  autoIncrement :: bool
  prop_length :: jsval
  dataType :: jsval
  precision :: jsval
  scale :: jsval
  charset :: jsval
  collation :: jsval
  dialect :: "dialect_block option"

datatype colval = Value jsval | Sql psql

text \<open>
  \<open>toColumnValue\<close> (lib/informix.js, lines 201-231). Reading \<open>prop.autoIncrement\<close> of an
  absent descriptor and calling \<open>getFullYear\<close> on a value that is not a \<open>Date\<close> raise
  a \<open>TypeError\<close>.
\<close>

definition toColumnValue :: "runtime \<Rightarrow> property option \<Rightarrow> jsval \<Rightarrow> js_error + colval" where
  "toColumnValue rt prop val =
     (if val = JNull then
        (case prop of
           None \<Rightarrow> Inl TypeError
         | Some p \<Rightarrow>
             if autoIncrement p \<or> prop_id p then Inr (Sql (new_psql ''DEFAULT''))
             else Inr (Value JNull))
      else
        (case prop of
           None \<Rightarrow> Inr (Value val)
         | Some p \<Rightarrow>
             if type_name p \<in> set [''Array'', ''Number'', ''String''] then Inr (Value val)
             else if type_name p = ''Boolean'' then Inr (Value (JNumber (ToNumber rt val)))
             else if type_name p \<in> set [''GeoPoint'', ''Point'', ''List'', ''Object'',
                                       ''ModelConstructor'']
               then Inr (Value (JSON_stringify rt val))
             else if type_name p = ''JSON'' then Inr (Value (JStr (ToString rt val)))
             else if type_name p = ''Date'' then
               (case val of JDate d \<Rightarrow> Inr (Value (JStr (dateToInformix d)))
                | _ \<Rightarrow> Inl TypeError)
             else Inr (Value val)))"

text \<open>
  \<open>fromColumnValue\<close> (lib/informix.js, lines 240-264). \<open>JSON.parse\<close> converts its
  argument to a string first.
\<close>

definition fromColumnValue :: "runtime \<Rightarrow> property option \<Rightarrow> jsval \<Rightarrow> js_error + jsval" where
  "fromColumnValue rt prop val =
     (if val = JNull then Inr val
      else
        (case prop of
           None \<Rightarrow> Inr val
         | Some p \<Rightarrow>
             if type_name p = ''Number'' then Inr (JNumber (ToNumber rt val))
             else if type_name p = ''String'' then Inr (JStr (ToString rt val))
             else if type_name p = ''Date'' then Inr (JDate (Date_new rt val))
             else if type_name p = ''Boolean'' then Inr (JBool (ToBoolean val))
             else if type_name p \<in> set [''GeoPoint'', ''Point'', ''List'', ''Array'', ''Object'',
                                       ''JSON'']
               then JSON_parse rt (ToString rt val)
             else Inr val))"

text \<open>A property of a type, with nothing else declared.\<close>

definition typed :: "string \<Rightarrow> property" where
  "typed n =
     \<lparr>type_name = n, type_is_String = (n = ''String''), enum_string = JUndefined,
      prop_id = False, autoIncrement = False, prop_length = JUndefined, dataType = JUndefined,
      precision = JUndefined, scale = JUndefined, charset = JUndefined, collation = JUndefined,
      dialect = None\<rparr>"

section \<open>Pagination\<close>

subsection \<open>The native clause\<close>

text \<open>\<open>isNaN(v)\<close>: whether \<open>Number(v)\<close> is \<open>NaN\<close>.\<close>

definition isNaN :: "runtime \<Rightarrow> jsval \<Rightarrow> bool" where
  "isNaN rt v = (ToNumber rt v = NaN)"

text \<open>
  \<open>buildLimit\<close> (lib/informix.js, lines 475-488). \<open>!v\<close> is the negation of
  \<open>ToBoolean v\<close>, and \<open>+\<close> with a string operand concatenates the operands' texts.
\<close>

definition buildLimit :: "runtime \<Rightarrow> jsval \<Rightarrow> jsval \<Rightarrow> string" where
  "buildLimit rt limit0 offset0 =
     (let limit = (if isNaN rt limit0 then JNumber (Num 0) else limit0);
          offset = (if isNaN rt offset0 then JNumber (Num 0) else offset0)
      in if \<not> ToBoolean limit \<and> \<not> ToBoolean offset then []
         else if ToBoolean limit \<and> \<not> ToBoolean offset
           then ''FETCH FIRST '' @ ToString rt limit @ '' ROWS ONLY''
         else if ToBoolean offset \<and> \<not> ToBoolean limit
           then ''OFFSET '' @ ToString rt offset
         else ''LIMIT '' @ ToString rt limit @ '' OFFSET '' @ ToString rt offset)"

record filter =
  filter_limit :: jsval
  filter_offset :: jsval
  filter_skip :: jsval

text \<open>\<open>applyPagination\<close> (lib/informix.js, lines 490-494).\<close>

definition applyPagination :: "runtime \<Rightarrow> psql \<Rightarrow> filter \<Rightarrow> psql" where
  "applyPagination rt stmt f =
     (let limitClause = buildLimit rt (filter_limit f) (or_js (filter_offset f) (filter_skip f))
      in merge_str stmt limitClause)"

text \<open>
  The values the clause builder is specified for: a number, an absent value (\<open>null\<close> or
  \<open>undefined\<close>), or a value that is not numeric, that is, one whose conversion to a number
  is \<open>NaN\<close>. A value of another type that converts to a number (\<open>true\<close>, the text
  \<open>0\<close>) is none of these. The effective value of a number is the number, of anything
  else zero.
\<close>

definition pagination_value :: "runtime \<Rightarrow> jsval \<Rightarrow> bool" where
  "pagination_value rt v =
     (case v of
        JNumber x \<Rightarrow> True
      | JNull \<Rightarrow> True
      | JUndefined \<Rightarrow> True
      | _ \<Rightarrow> ToNumber rt v = NaN)"

definition effective :: "jsval \<Rightarrow> int" where
  "effective v = (case v of JNumber (Num n) \<Rightarrow> n | _ \<Rightarrow> 0)"

subsection \<open>Tokens in the SQL text\<close>

text \<open>
  The patterns \<open>/LIMIT (\d+)/\<close> and \<open>/OFFSET (\d+)/\<close> of the constructor (lines 60-61): a
  fixed word, one space, and a longest run of at least one decimal digit. \<open>re_search\<close>
  is \<open>String.prototype.match\<close> with such a pattern: the leftmost match, as the text
  before it, the digits captured and the text after it.
\<close>

definition limitRE :: string where
  "limitRE = ''LIMIT ''"

definition offsetRE :: string where
  "offsetRE = ''OFFSET ''"

fun strip_prefix :: "string \<Rightarrow> string \<Rightarrow> string option" where
  "strip_prefix [] s = Some s"
| "strip_prefix (p # ps) [] = None"
| "strip_prefix (p # ps) (c # cs) = (if p = c then strip_prefix ps cs else None)"

definition match_here :: "string \<Rightarrow> string \<Rightarrow> (string \<times> string) option" where
  "match_here word s =
     (case strip_prefix word s of
        None \<Rightarrow> None
      | Some r \<Rightarrow>
          (let ds = takeWhile is_digit r
           in if ds = [] then None else Some (ds, dropWhile is_digit r)))"

fun re_search :: "string \<Rightarrow> string \<Rightarrow> (string \<times> string \<times> string) option" where
  "re_search word [] =
     (case match_here word [] of Some (ds, post) \<Rightarrow> Some ([], ds, post) | None \<Rightarrow> None)"
| "re_search word (c # cs) =
     (case match_here word (c # cs) of
        Some (ds, post) \<Rightarrow> Some ([], ds, post)
      | None \<Rightarrow>
          (case re_search word cs of
             Some (pre, ds, post) \<Rightarrow> Some (c # pre, ds, post)
           | None \<Rightarrow> None))"

text \<open>
  The body of \<open>if (res) { n = Number(res[1]); sql = sql.replace(re, ''); }\<close>: the
  number captured and the text without the match, or zero and the text unchanged.
\<close>

definition take_token :: "string \<Rightarrow> string \<Rightarrow> nat \<times> string" where
  "take_token re s =
     (case re_search re s of
        Some (pre, ds, post) \<Rightarrow> (Number_digits ds, pre @ post)
      | None \<Rightarrow> (0, s))"

text \<open>\<open>Array.prototype.slice(b, e)\<close> for bounds that are not negative.\<close>

definition slice :: "'a list \<Rightarrow> nat \<Rightarrow> nat \<Rightarrow> 'a list" where
  "slice xs b e = take (e - b) (drop b xs)"

section \<open>Statement execution\<close>

text \<open>
  What the driver passes to the callback of \<open>conn.query(sql, params, cb)\<close>: an error or
  none, the row-set (\<open>None\<close> when the driver passes no array) and whether more result
  sets are pending. A connection is its answer to a query.
\<close>

record query_reply =
  reply_err :: "js_error option"
  reply_data :: "jsval list option"
  reply_more :: bool

type_synonym connection = "string \<Rightarrow> jsval list \<Rightarrow> query_reply"

record informix =
  useLimitOffset :: bool
  connection :: connection

record exec_options =
  transaction :: "connection option"

text \<open>
  What one call does, in order: the query sent to the driver, each invocation of the
  caller's callback with its arguments, and an exception raised.
\<close>

datatype exec_event =
    Query string "jsval list"
  | Callback "js_error option" "jsval list option"
  | Throw js_error

text \<open>
  The function passed to \<open>conn.query\<close> (lines 137-156). \<open>data.slice\<close> raises a
  \<open>TypeError\<close> when \<open>data\<close> is no array. The callback scheduled with
  \<open>process.nextTick\<close> runs after the one called directly; \<open>callback\<close> tells whether the
  caller passed a callback at all.
\<close>

definition query_done :: "bool \<Rightarrow> nat \<Rightarrow> nat \<Rightarrow> query_reply \<Rightarrow> exec_event list" where
  "query_done callback limit offset reply =
     (let err = reply_err reply;
          more = reply_more reply;
          finish = (\<lambda>d.
            (if callback then [Callback err d] else [])
            @ (if err = None \<and> more
               then [if callback then Callback err d else Throw TypeError]
               else []))
      in if 0 < offset \<or> 0 < limit then
           (case reply_data reply of
              None \<Rightarrow> [Throw TypeError]
            | Some rows \<Rightarrow> finish (Some (slice rows offset (offset + limit))))
         else finish (reply_data reply))"

text \<open>
  The connection of lines 113-117: the one of the transaction when the options carry a
  transaction, the connector's own otherwise.
\<close>

definition chosen_connection :: "informix \<Rightarrow> exec_options \<Rightarrow> connection" where
  "chosen_connection self options =
     (case transaction options of Some c \<Rightarrow> c | None \<Rightarrow> connection self)"

text \<open>\<open>executeSQL\<close> (lib/informix.js, lines 109-157).\<close>

definition executeSQL :: "informix \<Rightarrow> exec_options \<Rightarrow> bool \<Rightarrow> string \<Rightarrow> jsval list \<Rightarrow> exec_event list" where
  "executeSQL self options callback sql0 ps =
     (let conn = chosen_connection self options;
          (limit, offset, sql2) =
            (if \<not> useLimitOffset self then
               (let (limit, sql1) = take_token limitRE sql0;
                    (offset, sql2) = take_token offsetRE sql1
                in (limit, offset, sql2))
             else (0, 0, sql0))
      in Query sql2 ps # query_done callback limit offset (conn sql2 ps))"

text \<open>
  The callback that \<open>update\<close> (lines 361-365) and \<open>destroyAll\<close> (lines 468-472) pass to
  \<open>execute\<close>: \<open>if (cb) cb(err, {count: info.length})\<close>. Reading \<open>length\<close> of an absent
  \<open>info\<close> raises a \<open>TypeError\<close>.
\<close>

datatype count_event = CountCallback "js_error option" nat | CountThrow js_error

definition count_cb :: "bool \<Rightarrow> js_error option \<Rightarrow> jsval list option \<Rightarrow> count_event list" where
  "count_cb cb err info =
     (if cb then (case info of None \<Rightarrow> [CountThrow TypeError]
                  | Some rows \<Rightarrow> [CountCallback err (length rows)])
      else [])"

section \<open>Column types\<close>

text \<open>
  \<open>stringOptions\<close> (lib/informix.js, lines 748-756).
\<close>

definition stringOptions :: "runtime \<Rightarrow> property \<Rightarrow> string \<Rightarrow> string" where
  "stringOptions rt p columnType =
     (let columnType = (if ToBoolean (charset p)
                        then columnType @ '' CHARACTER SET '' @ ToString rt (charset p)
                        else columnType);
          columnType = (if ToBoolean (collation p)
                        then columnType @ '' COLLATE '' @ ToString rt (collation p)
                        else columnType)
      in columnType)"

text \<open>
  \<open>convertTextType\<close> (lines 691-714). Its call of \<open>stringOptions\<close> drops the result.
\<close>

definition convertTextType :: "runtime \<Rightarrow> property \<Rightarrow> string \<Rightarrow> string" where
  "convertTextType rt p defaultType =
     (let len = or_js (prop_length p)
                  (if \<not> type_is_String p then JNumber (Num 4096)
                   else if prop_id p then JNumber (Num 255) else JNumber (Num 512));
          len = (case dialect p of
                   Some b \<Rightarrow> if ToBoolean (dataLength b) then dataLength b else len
                 | None \<Rightarrow> len);
          dt = (case dialect p of
                  Some b \<Rightarrow>
                    if ToBoolean (block_dataType b) then ToString rt (block_dataType b)
                    else if ToBoolean (dataType p) then ToString rt (dataType p)
                    else defaultType
                | None \<Rightarrow>
                    if ToBoolean (dataType p) then ToString rt (dataType p) else defaultType);
          dt = dt @ ''('' @ ToString rt len @ '')'';
          dropped = stringOptions rt p dt
      in dt)"

text \<open>\<open>v > 0\<close>: the comparison of \<open>Number(v)\<close> with zero, false for \<open>NaN\<close>.\<close>

definition greater_zero :: "runtime \<Rightarrow> jsval \<Rightarrow> bool" where
  "greater_zero rt v = (case ToNumber rt v of Num n \<Rightarrow> 0 < n | NaN \<Rightarrow> False)"

text \<open>
  The \<open>switch (dt)\<close> of \<open>convertNumberType\<close> (lines 732-745): a \<open>DECIMAL\<close> takes its
  precision and scale when both are set, and a scale without them is an error.
\<close>

definition decimal_type :: "runtime \<Rightarrow> string \<Rightarrow> jsval \<Rightarrow> jsval \<Rightarrow> js_error + string" where
  "decimal_type rt dt prec sc =
     (if dt = ''DECIMAL'' then
        (if ToBoolean prec \<and> ToBoolean sc
         then Inr (''DECIMAL'' @ ''('' @ ToString rt prec @ '','' @ ToString rt sc @ '')'')
         else if greater_zero rt sc
           then Inl (Error ''Scale without Precision does not make sense'' None)
         else Inr ''DECIMAL'')
      else Inr dt)"

text \<open>\<open>convertNumberType\<close> (lines 716-746).\<close>

definition convertNumberType :: "runtime \<Rightarrow> property \<Rightarrow> string \<Rightarrow> js_error + string" where
  "convertNumberType rt p defaultType =
     (let override = (case dialect p of
                        Some b \<Rightarrow> if ToBoolean (block_dataType b) then Some b else None
                      | None \<Rightarrow> None)
      in case override of
           None \<Rightarrow>
             if ToBoolean (dataType p)
             then decimal_type rt (ToString rt (dataType p)) (precision p) (scale p)
             else Inr defaultType
         | Some b \<Rightarrow>
             decimal_type rt (ToString rt (block_dataType b)) (dataPrecision b) (dataScale b))"

text \<open>
  \<open>buildColumnType\<close> (lines 654-689). The \<open>default\<close> label shares the branch of the
  text types.
\<close>

definition buildColumnType :: "runtime \<Rightarrow> property \<Rightarrow> js_error + string" where
  "buildColumnType rt p =
     (if type_name p = ''Number'' then convertNumberType rt p ''INTEGER''
      else if type_name p = ''Date'' then Inr ''TIMESTAMP''
      else if type_name p = ''Boolean'' then Inr ''SMALLINT''
      else if type_name p \<in> set [''Point'', ''GeoPoint''] then Inr ''POINT''
      else if type_name p = ''Enum''
        then Inr (stringOptions rt p (''ENUM('' @ ToString rt (enum_string p) @ '')''))
      else Inr (convertTextType rt p ''VARCHAR''))"

section \<open>The upsert statement\<close>

text \<open>
  Modelled from the spec: what the connector reads from the model registry and from the
  statement-building helpers of the loopback-connector library, which are not among the
  sources. A model has a table name, the name of its id property, its properties in
  their stable order and a column name for each property. \<open>buildFields\<close> gives, for
  each supplied field of the data, the escaped column name, the column value as a
  statement and the property definition; the three are one entry here, since the library
  pushes them together.
\<close>

record model_definition =
  table :: string
  idName :: string
  properties :: "(string \<times> property) list"
  column :: "string \<Rightarrow> string"

record field =
  fname :: string
  columnValue :: psql
  fproperty :: property

text \<open>\<open>tableEscaped\<close> (lines 66-69) and the library's \<open>columnEscaped\<close>.\<close>

definition tableEscaped :: "model_definition \<Rightarrow> string" where
  "tableEscaped md = escapeName (table md)"

definition columnEscaped :: "model_definition \<Rightarrow> string \<Rightarrow> string" where
  "columnEscaped md prop = escapeName (column md prop)"

text \<open>\<open>buildInsertDefaultValues\<close> (lines 293-302).\<close>

definition buildInsertDefaultValues :: "model_definition \<Rightarrow> string" where
  "buildInsertDefaultValues md =
     (let num = length (properties md);
          result = (if 0 < num then ''DEFAULT'' else []);
          result = result @ concat (replicate (num - 1) '',DEFAULT'')
      in ''VALUES('' @ result @ '')'')"

text \<open>
  The loop of lines 402-410: one \<open>CAST (value AS type)\<close> per supplied field, with a
  comma after each but the last. The loop stops at the first property whose type
  \<open>buildColumnType\<close> refuses.
\<close>

fun cast_values :: "runtime \<Rightarrow> field list \<Rightarrow> js_error + psql list" where
  "cast_values rt [] = Inr []"
| "cast_values rt (f # fs) =
     (case buildColumnType rt (fproperty f) of
        Inl e \<Rightarrow> Inl e
      | Inr ty \<Rightarrow>
          (case cast_values rt fs of
             Inl e \<Rightarrow> Inl e
           | Inr rest \<Rightarrow>
               Inr (\<lparr>sql = ''CAST ('' @ sql (columnValue f) @ '' AS '' @ ty @ '')''
                           @ (if fs \<noteq> [] then '','' else []),
                      params = params (columnValue f)\<rparr> # rest)))"

text \<open>The loop of lines 429-434: one assignment per supplied field that is no id.\<close>

definition assignment :: "field \<Rightarrow> psql" where
  "assignment f =
     \<lparr>sql = fname f @ ''='' @ ''('' @ sql (columnValue f) @ '')'',
      params = params (columnValue f)\<rparr>"

definition update_set :: "field list \<Rightarrow> psql list" where
  "update_set fs = map assignment (filter (\<lambda>f. \<not> prop_id (fproperty f)) fs)"

text \<open>
  The statement \<open>updateOrCreate\<close> builds (lib/informix.js, lines 375-436) before it
  executes it.
\<close>

definition updateOrCreate_stmt ::
  "runtime \<Rightarrow> string \<Rightarrow> model_definition \<Rightarrow> field list \<Rightarrow> js_error + psql" where
  "updateOrCreate_stmt rt schema md flds =
     (let ident = idName md;
          s0 = new_psql (''MERGE INTO '' @ toUpperCase rt schema @ ''.'' @ tableEscaped md);
          columnValues = map columnValue flds;
          fieldNames = map fname flds;
          inserted =
            (if fieldNames \<noteq> [] then
               (let s1 = merge_str s0 ''AS MT('';
                    setValues = map (\<lambda>(prop, p). new_psql (columnEscaped md prop)) (properties md);
                    columns = join_psql setValues '','';
                    s2 = merge s1 columns;
                    s3 = merge_str s2 '')'';
                    s4 = merge_str s3 ''USING (SELECT * FROM TABLE( VALUES(''
                in case cast_values rt flds of
                     Inl e \<Rightarrow> Inl e
                   | Inr setValues \<Rightarrow>
                       (let s5 = merge_list s4 setValues;
                            s6 = merge_str s5 (''))) AS VT('' @ join_strings '','' fieldNames @ '')'');
                            s7 = merge_str s6 ''ON'';
                            s8 = merge_str s7 (''(MT.\"'' @ ident @ ''\" = VT.\"'' @ ident @ ''\")'');
                            s9 = merge_str s8 (''WHEN NOT MATCHED THEN INSERT (''
                                               @ join_strings '','' fieldNames @ '')'');
                            vals = join_psql columnValues '','';
                            vals = vals\<lparr>sql := ''VALUES('' @ sql vals @ '')''\<rparr>
                        in Inr (merge s9 vals)))
             else Inr (merge_str s0 (buildInsertDefaultValues md)))
      in case inserted of
           Inl e \<Rightarrow> Inl e
         | Inr s10 \<Rightarrow>
             (let s11 = merge_str s10 ''WHEN MATCHED THEN UPDATE SET''
              in Inr (merge s11 (join_psql (update_set flds) '',''))))"


definition set_params :: "field list \<Rightarrow> jsval list" where
  "set_params flds =
     concat (map (\<lambda>f. params (columnValue f)) (filter (\<lambda>f. \<not> prop_id (fproperty f)) flds))"

definition set_list :: "field list \<Rightarrow> string" where
  "set_list flds =
     join_strings '',''
       (map (\<lambda>f. fname f @ ''=('' @ sql (columnValue f) @ '')'')
          (filter (\<lambda>f. \<not> prop_id (fproperty f)) flds))"

section \<open>Transactions\<close>

text \<open>
  The driver's connection, as the transaction functions use it: each native call passes an
  error or none to its callback. \<open>open_result\<close> is what the pool's \<open>open\<close> passes for
  the connection string.
\<close>

record tx_connection =
  beginTransaction_err :: "js_error option"
  query_err :: "string \<Rightarrow> js_error option"
  commitTransaction_err :: "js_error option"
  rollbackTransaction_err :: "js_error option"
  close_err :: "js_error option"

record tx_self =
  connStr :: string
  open_result :: "string \<Rightarrow> js_error + tx_connection"

text \<open>
  The isolation levels of the library's \<open>Transaction\<close> class, which is not among the
  sources, are parameters.
\<close>

record transaction_levels =
  READ_COMMITTED :: string
  SERIALIZABLE :: string

datatype tx_event =
    Open string
  | BeginTransaction
  | SetQuery string
  | CommitTransaction
  | RollbackTransaction
  | Close
  | Cb "js_error option" "tx_connection option"

text \<open>The events that reach the driver: everything but the caller's callback.\<close>

fun network_event :: "tx_event \<Rightarrow> bool" where
  "network_event (Cb e c) = False"
| "network_event ev = True"

text \<open>
  \<open>beginTransaction\<close> (transaction.js, lines 17-44). \<open>!==\<close> compares without
  coercion; the callback of the rejected call is scheduled with \<open>process.nextTick\<close>.
\<close>

definition beginTransaction ::
  "runtime \<Rightarrow> transaction_levels \<Rightarrow> tx_self \<Rightarrow> jsval \<Rightarrow> tx_event list" where
  "beginTransaction rt Transaction self isolationLevel =
     (if isolationLevel \<noteq> JStr (READ_COMMITTED Transaction)
         \<and> isolationLevel \<noteq> JStr (SERIALIZABLE Transaction)
      then
        [Cb (Some (Error (''Invalid isolationLevel: '' @ ToString rt isolationLevel) (Some 400)))
            None]
      else
        Open (connStr self) #
        (case open_result self (connStr self) of
           Inl err \<Rightarrow> [Cb (Some err) None]
         | Inr conn \<Rightarrow>
             BeginTransaction #
             (if ToBoolean isolationLevel then
                (let stmt = ''SET CURRENT ISOLATION '' @ ToString rt isolationLevel
                 in [SetQuery stmt, Cb (query_err conn stmt) (Some conn)])
              else [Cb (beginTransaction_err conn) (Some conn)])))"

text \<open>\<open>commit\<close> (transaction.js, lines 52-58) and \<open>rollback\<close> (lines 66-73).\<close>

definition commit :: "tx_connection \<Rightarrow> tx_event list" where
  "commit conn =
     CommitTransaction #
     (case commitTransaction_err conn of
        Some err \<Rightarrow> [Cb (Some err) None]
      | None \<Rightarrow> [Close, Cb (close_err conn) None])"

definition rollback :: "tx_connection \<Rightarrow> tx_event list" where
  "rollback conn =
     RollbackTransaction #
     (case rollbackTransaction_err conn of
        Some err \<Rightarrow> [Cb (Some err) None]
      | None \<Rightarrow> [Close, Cb (close_err conn) None])"

section \<open>Example inputs\<close>

text \<open>Concrete values at which the theorems below are instantiated.\<close>

text \<open>
  A runtime for the examples. Its conversion of a string to a number is JavaScript's on the
  texts the examples convert (the empty text, a run of decimal digits, and texts such as
  \<open>abc\<close> and \<open>[object Object]\<close> that are no number), and its upper-casing is
  JavaScript's on ASCII text; the text of a large number is given for \<open>10\<^sup>2\<^sup>1\<close>, the
  one such number the examples print. The examples call none of its other built-ins.
\<close>

definition ascii_upper :: "char \<Rightarrow> char" where
  "ascii_upper c =
     (case map_of (zip ''abcdefghijklmnopqrstuvwxyz'' ''ABCDEFGHIJKLMNOPQRSTUVWXYZ'') c of
        Some u \<Rightarrow> u
      | None \<Rightarrow> c)"

definition ex_runtime :: runtime where
  "ex_runtime =
     \<lparr>JSON_parse = (\<lambda>s. Inl SyntaxError),
      JSON_stringify = (\<lambda>v. JUndefined),
      Date_new = (\<lambda>v. InvalidDate),
      Date_toString = (\<lambda>d. ''Invalid Date''),
      Date_valueOf = (\<lambda>d. NaN),
      StringToNumber = (\<lambda>s. if s = [] then Num 0
                            else if list_all is_digit s then Num (int (Number_digits s))
                            else NaN),
      toUpperCase = map ascii_upper,
      large_number_text = (\<lambda>i. if i = 1000000000000000000000 then ''1e+21'' else [])\<rparr>"

definition ex_time :: local_time where
  "ex_time = \<lparr>fullYear = 2021, month0 = 2, dayOfMonth = 7, hours = 13, minutes = 5,
     seconds = 9, milliseconds = 42\<rparr>"

definition ex_time_999 :: local_time where
  "ex_time_999 = \<lparr>fullYear = 999, month0 = 0, dayOfMonth = 1, hours = 0, minutes = 0,
     seconds = 0, milliseconds = 0\<rparr>"

definition ex_conn :: tx_connection where
  "ex_conn = \<lparr>beginTransaction_err = None, query_err = (\<lambda>s. None),
     commitTransaction_err = Some (Error ''commit failed'' None),
     rollbackTransaction_err = None, close_err = None\<rparr>"

definition ex_levels :: transaction_levels where
  "ex_levels = \<lparr>READ_COMMITTED = ''READ COMMITTED'', SERIALIZABLE = ''SERIALIZABLE''\<rparr>"

definition ex_rows :: "jsval list" where
  "ex_rows = [JObj [(''id'', JNumber (Num 1))], JObj [(''id'', JNumber (Num 2))],
              JObj [(''id'', JNumber (Num 3))]]"

definition ex_self :: informix where
  "ex_self = \<lparr>useLimitOffset = False,
     connection = (\<lambda>s ps. \<lparr>reply_err = None, reply_data = Some ex_rows, reply_more = False\<rparr>)\<rparr>"

definition ex_self_more :: informix where
  "ex_self_more = \<lparr>useLimitOffset = False,
     connection = (\<lambda>s ps. \<lparr>reply_err = None, reply_data = Some ex_rows, reply_more = True\<rparr>)\<rparr>"

definition ex_self_failing :: informix where
  "ex_self_failing = \<lparr>useLimitOffset = False,
     connection = (\<lambda>s ps. \<lparr>reply_err = Some (Error ''engine error'' None), reply_data = None,
                              reply_more = False\<rparr>)\<rparr>"

definition ex_options :: exec_options where
  "ex_options = \<lparr>transaction = None\<rparr>"

definition ex_model :: model_definition where
  "ex_model = \<lparr>table = ''Customer'', idName = ''id'',
     properties = [(''id'', (typed ''Number'')\<lparr>prop_id := True\<rparr>),
                   (''name'', typed ''String'')],
     column = (\<lambda>p. p)\<rparr>"

definition ex_fields :: "field list" where
  "ex_fields =
     [\<lparr>fname = ''\"id\"'', columnValue = \<lparr>sql = ''?'', params = [JNumber (Num 5)]\<rparr>,
       fproperty = (typed ''Number'')\<lparr>prop_id := True\<rparr>\<rparr>,
      \<lparr>fname = ''\"name\"'', columnValue = \<lparr>sql = ''?'', params = [JStr ''a'']\<rparr>,
       fproperty = typed ''String''\<rparr>]"

section \<open>Theorems\<close>

subsection \<open>Identifier escaping\<close>

text \<open>
  C1 (identifier escaping). The specification requires every internal double quote of an
  identifier to be doubled before the identifier is wrapped in quotes. The code computes
  the doubled string and discards it: for the identifier \<open>a"b\<close> it returns \<open>"a"b"\<close>, whose
  internal quote is not escaped, where the specified result is \<open>"a""b"\<close>.
\<close>

theorem escapeName_keeps_internal_quote:
  "escapeName ''a\"b'' = ''\"a\"b\"'' \<and> escapeName_spec ''a\"b'' = ''\"a\"\"b\"''"
  by (simp add: escapeName_def escapeName_spec_def replace_quotes_def)

text \<open>
  The same holds for every identifier that contains a double quote: the result is the
  identifier between two quotes, and differs from the doubled form.
\<close>

lemma escapeName_never_doubles:
  assumes "CHR 0x22 \<in> set name"
  shows "escapeName name = [CHR 0x22] @ name @ [CHR 0x22]"
    and "escapeName name \<noteq> escapeName_spec name"
proof -
  from assms have ne: "name \<noteq> []" by auto
  then show e: "escapeName name = [CHR 0x22] @ name @ [CHR 0x22]"
    by (simp add: escapeName_def)
  have len: "length name < length (replace_quotes name)"
    using assms unfolding replace_quotes_def
  proof (induction name)
    case Nil
    then show ?case by simp
  next
    case (Cons c cs)
    have le: "length cs \<le> length (concat (map (\<lambda>c. if c = CHR 0x22 then [CHR 0x22, CHR 0x22] else [c]) cs))"
      by (induction cs) auto
    show ?case
    proof (cases "c = CHR 0x22")
      case True
      then show ?thesis using le by simp
    next
      case False
      with Cons.prems have "CHR 0x22 \<in> set cs" by simp
      with Cons.IH False show ?thesis by simp
    qed
  qed
  then have "length (escapeName name) \<noteq> length (escapeName_spec name)"
    using e by (simp add: escapeName_spec_def)
  then show "escapeName name \<noteq> escapeName_spec name" by auto
qed

subsection \<open>Decimal text\<close>

lemma show_nat_small: "n < 10 \<Longrightarrow> show_nat n = [digit_char n]"
  by (simp add: show_nat.simps)

lemma show_nat_step: "10 \<le> n \<Longrightarrow> show_nat n = show_nat (n div 10) @ [digit_char (n mod 10)]"
  by (subst show_nat.simps) simp

lemma length_show_nat_1: "n < 10 \<Longrightarrow> length (show_nat n) = 1"
  by (simp add: show_nat_small)

lemma length_show_nat_step: "10 \<le> n \<Longrightarrow> length (show_nat n) = Suc (length (show_nat (n div 10)))"
  by (subst show_nat.simps) simp

lemma length_show_nat_2: "10 \<le> n \<Longrightarrow> n < 100 \<Longrightarrow> length (show_nat n) = 2"
proof -
  assume a: "10 \<le> n" "n < 100"
  then have "length (show_nat (n div 10)) = 1" by (intro length_show_nat_1) simp
  then show ?thesis using length_show_nat_step [OF a(1)] by simp
qed

lemma length_show_nat_3: "100 \<le> n \<Longrightarrow> n < 1000 \<Longrightarrow> length (show_nat n) = 3"
proof -
  assume a: "100 \<le> n" "n < 1000"
  then have "length (show_nat (n div 10)) = 2" by (intro length_show_nat_2) simp_all
  moreover have "10 \<le> n" using a by simp
  ultimately show ?thesis using length_show_nat_step [of n] by simp
qed

lemma length_show_nat_4: "1000 \<le> n \<Longrightarrow> n < 10000 \<Longrightarrow> length (show_nat n) = 4"
proof -
  assume a: "1000 \<le> n" "n < 10000"
  then have "length (show_nat (n div 10)) = 3" by (intro length_show_nat_3) simp_all
  moreover have "10 \<le> n" using a by simp
  ultimately show ?thesis using length_show_nat_step [of n] by simp
qed

lemma is_digit_digit_char: "d < 10 \<Longrightarrow> is_digit (digit_char d)"
proof -
  assume "d < 10"
  then have "d \<in> {0, 1, 2, 3, 4, 5, 6, 7, 8, 9}" by auto
  then show ?thesis
    by (auto simp: is_digit_def digit_char_def)
qed

lemma digits_show_nat: "list_all is_digit (show_nat n)"
proof (induction n rule: show_nat.induct)
  case (1 n)
  show ?case
  proof (cases "n < 10")
    case True
    then show ?thesis by (simp add: show_nat_small is_digit_digit_char)
  next
    case False
    then have "list_all is_digit (show_nat (n div 10))" using 1 by simp
    moreover have "is_digit (digit_char (n mod 10))" by (simp add: is_digit_digit_char)
    ultimately show ?thesis using False by (simp add: show_nat_step)
  qed
qed

lemma digits_zero_pad: "list_all is_digit (zero_pad w n)"
proof -
  have "is_digit (CHR ''0'')" by (simp add: is_digit_def)
  then show ?thesis
    unfolding zero_pad_def using digits_show_nat [of n] by (auto simp: list_all_iff)
qed

lemma length_zero_pad: "length (show_nat n) \<le> w \<Longrightarrow> length (zero_pad w n) = w"
  by (simp add: zero_pad_def)

text \<open>The digits written read back as the number, with or without padding.\<close>

lemma digit_val_digit_char: "d < 10 \<Longrightarrow> digit_val (digit_char d) = d"
proof -
  assume "d < 10"
  then have "d \<in> {0, 1, 2, 3, 4, 5, 6, 7, 8, 9}" by auto
  then show ?thesis by (auto simp: digit_val_def digit_char_def)
qed

lemma Number_digits_snoc: "Number_digits (ds @ [c]) = 10 * Number_digits ds + digit_val c"
  by (simp add: Number_digits_def)

lemma Number_digits_show_nat: "Number_digits (show_nat n) = n"
proof (induction n rule: show_nat.induct)
  case (1 n)
  show ?case
  proof (cases "n < 10")
    case True
    then show ?thesis by (simp add: show_nat_small Number_digits_def digit_val_digit_char)
  next
    case False
    then have "Number_digits (show_nat (n div 10)) = n div 10" using 1 by simp
    then show ?thesis
      using False by (simp add: show_nat_step Number_digits_snoc digit_val_digit_char)
  qed
qed

lemma Number_digits_zeros: "Number_digits (replicate k (CHR ''0'') @ ds) = Number_digits ds"
proof -
  have "foldl (\<lambda>acc c. 10 * acc + digit_val c) 0 (replicate k (CHR ''0'')) = 0"
    by (induction k) (simp_all add: digit_val_def)
  then show ?thesis by (simp add: Number_digits_def)
qed

lemma Number_digits_zero_pad: "Number_digits (zero_pad w n) = n"
  by (simp add: zero_pad_def Number_digits_zeros Number_digits_show_nat)

lemma matches_digits:
  "matches_shape (replicate k (CHR ''d'')) s \<longleftrightarrow> length s = k \<and> list_all is_digit s"
  unfolding matches_shape_def
proof (induction k arbitrary: s)
  case 0 show ?case by auto
next
  case (Suc k) show ?case by (cases s) (auto simp: Suc)
qed

lemma matches_append:
  "matches_shape p1 s1 \<Longrightarrow> matches_shape p2 s2 \<Longrightarrow> matches_shape (p1 @ p2) (s1 @ s2)"
  unfolding matches_shape_def by (rule list_all2_appendI)

lemma matches_sep: "c \<noteq> CHR ''d'' \<Longrightarrow> matches_shape [c] [c]"
  by (simp add: matches_shape_def)

lemma matches_zero_pad:
  "length (show_nat n) \<le> w \<Longrightarrow> matches_shape (replicate w (CHR ''d'')) (zero_pad w n)"
  by (simp add: matches_digits length_zero_pad digits_zero_pad)

lemma length_show_nat_le2: "n < 100 \<Longrightarrow> length (show_nat n) \<le> 2"
  using length_show_nat_1 [of n] length_show_nat_2 [of n] by (cases "n < 10") simp_all

lemma length_show_nat_le3: "n < 1000 \<Longrightarrow> length (show_nat n) \<le> 3"
  using length_show_nat_le2 [of n] length_show_nat_3 [of n] by (cases "n < 100") simp_all

lemma fillZeros_pad: "0 \<le> i \<Longrightarrow> i < 100 \<Longrightarrow> fillZeros (Num i) = zero_pad 2 (nat i)"
proof (cases "i < 10")
  case True
  assume "0 \<le> i"
  with True have "length (show_nat (nat i)) = 1" by (intro length_show_nat_1) simp
  with True \<open>0 \<le> i\<close> show ?thesis by (simp add: fillZeros_def zero_pad_def show_int_def)
next
  case False
  assume "i < 100"
  with False have "length (show_nat (nat i)) = 2" by (intro length_show_nat_2) simp_all
  with False show ?thesis by (simp add: fillZeros_def zero_pad_def show_int_def)
qed

lemma millis_pad:
  assumes "0 \<le> i" "i \<le> 999"
  shows "(if i < 10 then ''00000'' @ show_int i
          else if i < 100 then ''0000'' @ show_int i else ''000'' @ show_int i)
         = zero_pad 6 (nat i)"
proof -
  consider "i < 10" | "10 \<le> i" "i < 100" | "100 \<le> i" by linarith
  then show ?thesis
  proof cases
    case 1
    then have "length (show_nat (nat i)) = 1" using assms by (intro length_show_nat_1) simp
    with 1 assms show ?thesis by (simp add: zero_pad_def show_int_def eval_nat_numeral)
  next
    case 2
    then have "length (show_nat (nat i)) = 2" by (intro length_show_nat_2) simp_all
    with 2 show ?thesis by (simp add: zero_pad_def show_int_def eval_nat_numeral)
  next
    case 3
    then have "length (show_nat (nat i)) = 3" using assms by (intro length_show_nat_3) simp_all
    with 3 show ?thesis by (simp add: zero_pad_def show_int_def eval_nat_numeral)
  qed
qed

lemma year_pad:
  assumes "1000 \<le> y" "y \<le> 9999"
  shows "show_int y = zero_pad 4 (nat y)"
proof -
  have "length (show_nat (nat y)) = 4" using assms by (intro length_show_nat_4) simp_all
  then show ?thesis using assms by (simp add: zero_pad_def show_int_def)
qed

lemma dateToInformix_fields:
  assumes "valid_time t"
  shows "dateToInformix (ValidDate t) =
           show_int (fullYear t) @ ''-'' @ zero_pad 2 (nat (month0 t + 1)) @ ''-''
           @ zero_pad 2 (nat (dayOfMonth t)) @ ''-'' @ zero_pad 2 (nat (hours t)) @ ''.''
           @ zero_pad 2 (nat (minutes t)) @ ''.'' @ zero_pad 2 (nat (seconds t)) @ ''.''
           @ zero_pad 6 (nat (milliseconds t))"
proof -
  have f: "fillZeros (Num (month0 t + 1)) = zero_pad 2 (nat (month0 t + 1))"
    "fillZeros (Num (dayOfMonth t)) = zero_pad 2 (nat (dayOfMonth t))"
    "fillZeros (Num (hours t)) = zero_pad 2 (nat (hours t))"
    "fillZeros (Num (minutes t)) = zero_pad 2 (nat (minutes t))"
    "fillZeros (Num (seconds t)) = zero_pad 2 (nat (seconds t))"
    using assms by (simp_all add: valid_time_def fillZeros_pad)
  have m: "(if milliseconds t < 10 then ''00000'' @ show_int (milliseconds t)
          else if milliseconds t < 100 then ''0000'' @ show_int (milliseconds t)
          else ''000'' @ show_int (milliseconds t)) = zero_pad 6 (nat (milliseconds t))"
    using assms by (intro millis_pad) (simp_all add: valid_time_def)
  show ?thesis
    unfolding dateToInformix_def Let_def getFullYear_def getMonth_def getDate_def getHours_def
      getMinutes_def getSeconds_def getMilliseconds_def num_add_def
    using f m by (simp add: show_num_def)
qed

lemma tail_shape:
  assumes "valid_time t"
  shows "matches_shape (drop 4 timestamp_shape)
           (''-'' @ zero_pad 2 (nat (month0 t + 1)) @ ''-''
            @ zero_pad 2 (nat (dayOfMonth t)) @ ''-'' @ zero_pad 2 (nat (hours t)) @ ''.''
            @ zero_pad 2 (nat (minutes t)) @ ''.'' @ zero_pad 2 (nat (seconds t)) @ ''.''
            @ zero_pad 6 (nat (milliseconds t)))"
proof -
  have sh: "drop 4 timestamp_shape =
      ''-'' @ replicate 2 (CHR ''d'') @ ''-'' @ replicate 2 (CHR ''d'') @ ''-''
      @ replicate 2 (CHR ''d'') @ ''.'' @ replicate 2 (CHR ''d'') @ ''.''
      @ replicate 2 (CHR ''d'') @ ''.'' @ replicate 6 (CHR ''d'')"
    by (simp add: timestamp_shape_def eval_nat_numeral)
  have w: "length (show_nat (nat (month0 t + 1))) \<le> 2" "length (show_nat (nat (dayOfMonth t))) \<le> 2"
    "length (show_nat (nat (hours t))) \<le> 2" "length (show_nat (nat (minutes t))) \<le> 2"
    "length (show_nat (nat (seconds t))) \<le> 2"
    using assms by (auto simp: valid_time_def intro!: length_show_nat_le2)
  have "nat (milliseconds t) < 1000" using assms unfolding valid_time_def by linarith
  then have "length (show_nat (nat (milliseconds t))) \<le> 3" by (rule length_show_nat_le3)
  then have w6: "length (show_nat (nat (milliseconds t))) \<le> 6" by simp
  show ?thesis
    unfolding sh
    by (intro matches_append matches_sep matches_zero_pad w w6) simp_all
qed

subsection \<open>The timestamp literal\<close>

lemmas date_eval = dateToInformix_def getFullYear_def getMonth_def getDate_def getHours_def
  getMinutes_def getSeconds_def getMilliseconds_def num_add_def fillZeros_def show_num_def
  show_int_def show_nat.simps digit_char_def


text \<open>
  C8, as amended. For every valid \<open>Date\<close>, \<open>toColumnValue\<close> of a \<open>Date\<close> property
  returns the literal \<open>dateToInformix\<close> builds: the year as JavaScript prints it (not
  padded), then month, day, hour, minute and second, each zero-padded to two digits, then
  the milliseconds zero-padded to six digits, separated as in \<open>-MM-DD-HH.MM.SS.ffffff\<close>.
  The whole literal has the fixed-width shape \<open>YYYY-MM-DD-HH.MM.SS.ffffff\<close> when the year
  has four digits, that is from 1000 to 9999.
\<close>

theorem toColumnValue_Date_literal:
  assumes "valid_time t" and "type_name p = ''Date''"
  shows "toColumnValue rt (Some p) (JDate (ValidDate t))
           = Inr (Value (JStr (dateToInformix (ValidDate t))))
         \<and> dateToInformix (ValidDate t) =
             show_int (fullYear t) @ ''-'' @ zero_pad 2 (nat (month0 t + 1)) @ ''-''
             @ zero_pad 2 (nat (dayOfMonth t)) @ ''-'' @ zero_pad 2 (nat (hours t)) @ ''.''
             @ zero_pad 2 (nat (minutes t)) @ ''.'' @ zero_pad 2 (nat (seconds t)) @ ''.''
             @ zero_pad 6 (nat (milliseconds t))
         \<and> matches_shape (drop 4 timestamp_shape)
             (drop (length (show_int (fullYear t))) (dateToInformix (ValidDate t)))
         \<and> (1000 \<le> fullYear t \<and> fullYear t \<le> 9999 \<longrightarrow>
              matches_shape timestamp_shape (dateToInformix (ValidDate t)))"
proof -
  let ?tail = "''-'' @ zero_pad 2 (nat (month0 t + 1)) @ ''-''
             @ zero_pad 2 (nat (dayOfMonth t)) @ ''-'' @ zero_pad 2 (nat (hours t)) @ ''.''
             @ zero_pad 2 (nat (minutes t)) @ ''.'' @ zero_pad 2 (nat (seconds t)) @ ''.''
             @ zero_pad 6 (nat (milliseconds t))"
  have d: "dateToInformix (ValidDate t) = show_int (fullYear t) @ ?tail"
    using dateToInformix_fields [OF assms(1)] .
  have c: "toColumnValue rt (Some p) (JDate (ValidDate t))
           = Inr (Value (JStr (dateToInformix (ValidDate t))))"
    using assms(2) by (simp add: toColumnValue_def)
  have tl: "matches_shape (drop 4 timestamp_shape) ?tail"
    using tail_shape [OF assms(1)] .
  have full: "matches_shape timestamp_shape (dateToInformix (ValidDate t))"
    if y: "1000 \<le> fullYear t" "fullYear t \<le> 9999"
  proof -
    have "length (show_nat (nat (fullYear t))) \<le> 4"
      using length_show_nat_4 [of "nat (fullYear t)"] y by simp
    then have "matches_shape (replicate 4 (CHR ''d'')) (zero_pad 4 (nat (fullYear t)))"
      by (rule matches_zero_pad)
    then have "matches_shape (replicate 4 (CHR ''d'') @ drop 4 timestamp_shape)
                 (show_int (fullYear t) @ ?tail)"
      using tl year_pad [OF y] by (intro matches_append) simp_all
    moreover have "replicate 4 (CHR ''d'') @ drop 4 timestamp_shape = timestamp_shape"
      by (simp add: timestamp_shape_def eval_nat_numeral)
    ultimately show ?thesis using d by simp
  qed
  show ?thesis using c d tl full by simp
qed

theorem toColumnValue_Date_witness:
  "\<forall>rt. toColumnValue rt (Some (typed ''Date'')) (JDate (ValidDate ex_time))
          = Inr (Value (JStr ''2021-03-07-13.05.09.000042''))"
proof -
  have v: "valid_time ex_time" by (simp add: valid_time_def ex_time_def)
  have e: "dateToInformix (ValidDate ex_time) = ''2021-03-07-13.05.09.000042''"
    by (simp add: ex_time_def date_eval)
  show ?thesis
    using toColumnValue_Date_literal [OF v, of "typed ''Date''"] e by (simp add: typed_def)
qed

text \<open>
  C8, as stated, fails for a year of fewer than four digits: the first day of the year 999
  is written \<open>999-01-01-00.00.00.000000\<close>, which is one character short of the
  fixed-width shape.
\<close>

theorem dateToInformix_year_999_counterexample:
  "valid_time ex_time_999
   \<and> dateToInformix (ValidDate ex_time_999) = ''999-01-01-00.00.00.000000''
   \<and> \<not> matches_shape timestamp_shape (dateToInformix (ValidDate ex_time_999))"
  by (simp add: ex_time_999_def valid_time_def date_eval matches_shape_def timestamp_shape_def
      is_digit_def)

text \<open>An invalid \<open>Date\<close> has no calendar fields: every getter gives \<open>NaN\<close>.\<close>

lemma dateToInformix_InvalidDate:
  "dateToInformix InvalidDate = ''NaN-NaN-NaN-NaN.NaN.NaN.000NaN''"
  by (simp add: date_eval)


subsection \<open>Transactions\<close>

text \<open>
  C4. \<open>commit\<close> and \<open>rollback\<close> first make the native finalization call
  (\<open>commitTransaction\<close>, \<open>rollbackTransaction\<close>). When that call succeeds the connection
  is closed next and the callback receives what \<open>close\<close> reports; when it fails the
  callback receives that error and the connection is not closed.
\<close>

theorem commit_rollback_finalize_then_close:
  "(\<exists>rest. commit conn = CommitTransaction # rest)
   \<and> (commitTransaction_err conn = None \<longrightarrow>
        commit conn = [CommitTransaction, Close, Cb (close_err conn) None])
   \<and> (\<forall>e. commitTransaction_err conn = Some e \<longrightarrow>
        commit conn = [CommitTransaction, Cb (Some e) None] \<and> Close \<notin> set (commit conn))
   \<and> (\<exists>rest. rollback conn = RollbackTransaction # rest)
   \<and> (rollbackTransaction_err conn = None \<longrightarrow>
        rollback conn = [RollbackTransaction, Close, Cb (close_err conn) None])
   \<and> (\<forall>e. rollbackTransaction_err conn = Some e \<longrightarrow>
        rollback conn = [RollbackTransaction, Cb (Some e) None] \<and> Close \<notin> set (rollback conn))"
  by (simp add: commit_def rollback_def split: option.splits)

theorem commit_rollback_witness:
  "commit ex_conn = [CommitTransaction, Cb (Some (Error ''commit failed'' None)) None]
   \<and> rollback ex_conn = [RollbackTransaction, Close, Cb None None]"
  using commit_rollback_finalize_then_close [of ex_conn] by (simp add: ex_conn_def)

text \<open>
  C5. For every isolation level that is neither read-committed nor serializable,
  \<open>beginTransaction\<close> invokes the callback once, with an error whose status code is 400,
  and nothing reaches the driver: no connection is opened and no statement is sent.
\<close>

theorem beginTransaction_rejects_invalid_level:
  assumes "isolationLevel \<noteq> JStr (READ_COMMITTED T)"
    and "isolationLevel \<noteq> JStr (SERIALIZABLE T)"
  shows "beginTransaction rt T self isolationLevel =
           [Cb (Some (Error (''Invalid isolationLevel: '' @ ToString rt isolationLevel) (Some 400)))
               None]
         \<and> filter network_event (beginTransaction rt T self isolationLevel) = []"
  using assms by (simp add: beginTransaction_def)

theorem beginTransaction_witness:
  "\<forall>rt self. beginTransaction rt ex_levels self (JStr ''invalid'') =
     [Cb (Some (Error ''Invalid isolationLevel: invalid'' (Some 400))) None]"
  using beginTransaction_rejects_invalid_level [of "JStr ''invalid''" ex_levels]
  by (simp add: ex_levels_def)

subsection \<open>The native pagination clause\<close>

lemma effective_value:
  assumes "pagination_value rt v"
  shows "ToBoolean (if isNaN rt v then JNumber (Num 0) else v) = (effective v \<noteq> 0)"
    and "effective v \<noteq> 0 \<Longrightarrow>
           ToString rt (if isNaN rt v then JNumber (Num 0) else v)
             = number_text rt (Num (effective v))"
proof -
  show "ToBoolean (if isNaN rt v then JNumber (Num 0) else v) = (effective v \<noteq> 0)"
    using assms
    by (cases v) (auto simp: pagination_value_def isNaN_def effective_def split: jsnum.splits)
  show "effective v \<noteq> 0 \<Longrightarrow>
           ToString rt (if isNaN rt v then JNumber (Num 0) else v)
             = number_text rt (Num (effective v))"
    using assms
    by (cases v) (auto simp: pagination_value_def isNaN_def effective_def split: jsnum.splits)
qed

text \<open>
  For every pair of values, of any type: a value \<open>isNaN\<close> accepts is replaced by zero,
  and the clause is chosen by which of the two resulting values are falsy.
\<close>

lemma buildLimit_all_inputs:
  "buildLimit rt lim off =
     (let l = (if isNaN rt lim then JNumber (Num 0) else lim);
          k = (if isNaN rt off then JNumber (Num 0) else off)
      in if \<not> ToBoolean l \<and> \<not> ToBoolean k then []
         else if \<not> ToBoolean k then ''FETCH FIRST '' @ ToString rt l @ '' ROWS ONLY''
         else if \<not> ToBoolean l then ''OFFSET '' @ ToString rt k
         else ''LIMIT '' @ ToString rt l @ '' OFFSET '' @ ToString rt k)"
  by (auto simp: buildLimit_def Let_def)

text \<open>
  \<open>applyPagination\<close> appends the clause for the limit and for the offset, or the skip
  when the offset is falsy, to the statement.
\<close>

lemma applyPagination_clause:
  "sql stmt \<noteq> [] \<Longrightarrow>
   sql (applyPagination rt stmt f)
     = sql stmt @ '' '' @ buildLimit rt (filter_limit f) (or_js (filter_offset f) (filter_skip f))"
  by (simp add: applyPagination_def merge_str_def merge_def append_psql_def new_psql_def)

text \<open>
  C7, as amended. For limit and offset values that are numbers, absent (\<open>null\<close> or
  \<open>undefined\<close>) or not numeric (their conversion to a number is \<open>NaN\<close>), \<open>buildLimit\<close>
  returns the empty string when both effective values are zero, exactly
  \<open>FETCH FIRST <limit> ROWS ONLY\<close> when only the limit is not zero, exactly
  \<open>OFFSET <offset>\<close> when only the offset is not zero, and the combined
  \<open>LIMIT <limit> OFFSET <offset>\<close> when neither is zero, each number in the text
  JavaScript gives it; a value that is not numeric or is absent has the effective value
  zero.
\<close>

theorem buildLimit_clauses:
  assumes "pagination_value rt lim" and "pagination_value rt off"
  shows "buildLimit rt lim off =
           (if effective lim = 0 \<and> effective off = 0 then []
            else if effective off = 0
              then ''FETCH FIRST '' @ number_text rt (Num (effective lim)) @ '' ROWS ONLY''
            else if effective lim = 0
              then ''OFFSET '' @ number_text rt (Num (effective off))
            else ''LIMIT '' @ number_text rt (Num (effective lim))
                 @ '' OFFSET '' @ number_text rt (Num (effective off)))
         \<and> (ToNumber rt lim = NaN \<longrightarrow> effective lim = 0)
         \<and> (ToNumber rt off = NaN \<longrightarrow> effective off = 0)
         \<and> (lim = JUndefined \<or> lim = JNull \<longrightarrow> effective lim = 0)
         \<and> (off = JUndefined \<or> off = JNull \<longrightarrow> effective off = 0)"
proof -
  have nan: "\<And>v. ToNumber rt v = NaN \<Longrightarrow> effective v = 0"
    by (auto simp: effective_def split: jsval.splits jsnum.splits)
  have "buildLimit rt lim off =
           (if effective lim = 0 \<and> effective off = 0 then []
            else if effective off = 0
              then ''FETCH FIRST '' @ number_text rt (Num (effective lim)) @ '' ROWS ONLY''
            else if effective lim = 0
              then ''OFFSET '' @ number_text rt (Num (effective off))
            else ''LIMIT '' @ number_text rt (Num (effective lim))
                 @ '' OFFSET '' @ number_text rt (Num (effective off)))"
    unfolding buildLimit_def Let_def
    using effective_value [OF assms(1)] effective_value [OF assms(2)] by simp
  then show ?thesis using nan by (auto simp: effective_def)
qed

lemmas number_eval = number_text_def show_int_def show_nat.simps digit_char_def

theorem buildLimit_witness:
  "buildLimit ex_runtime (JNumber (Num 10)) JUndefined = ''FETCH FIRST 10 ROWS ONLY''
   \<and> buildLimit ex_runtime (JStr ''abc'') (JNumber (Num 5)) = ''OFFSET 5''
   \<and> buildLimit ex_runtime (JNumber (Num 10)) (JNumber (Num 5)) = ''LIMIT 10 OFFSET 5''
   \<and> buildLimit ex_runtime (JObj []) JNull = []
   \<and> buildLimit ex_runtime (JNumber (Num 1000000000000000000000)) (JNumber NaN)
       = ''FETCH FIRST 1e+21 ROWS ONLY''"
proof -
  have p: "pagination_value ex_runtime (JNumber (Num 10))"
    "pagination_value ex_runtime (JNumber (Num 5))"
    "pagination_value ex_runtime (JNumber NaN)"
    "pagination_value ex_runtime JUndefined"
    "pagination_value ex_runtime JNull"
    "pagination_value ex_runtime (JNumber (Num 1000000000000000000000))"
    by (simp_all add: pagination_value_def)
  have q: "pagination_value ex_runtime (JStr ''abc'')" "pagination_value ex_runtime (JObj [])"
    by (simp_all add: pagination_value_def ex_runtime_def is_digit_def)
  have t: "number_text ex_runtime (Num 10) = ''10''" "number_text ex_runtime (Num 5) = ''5''"
    "number_text ex_runtime (Num 1000000000000000000000) = ''1e+21''"
    by (simp_all add: number_eval ex_runtime_def)
  show ?thesis
    using buildLimit_clauses [OF p(1) p(4)] buildLimit_clauses [OF q(1) p(2)]
      buildLimit_clauses [OF p(1) p(2)] buildLimit_clauses [OF q(2) p(5)]
      buildLimit_clauses [OF p(6) p(3)] t
    by (simp add: effective_def)
qed

text \<open>
  C7, as stated for all inputs, fails for a value that is no number and still converts to
  one. \<open>true\<close> is not numeric, \<open>isNaN(true)\<close> is false and \<open>true\<close> is truthy: it is not
  treated as zero, and the clause is \<open>FETCH FIRST true ROWS ONLY\<close>. The text \<open>0\<close> has the
  numeric value zero and is truthy: with an absent offset both effective values are zero,
  and the clause is \<open>FETCH FIRST 0 ROWS ONLY\<close>, not the empty string.
\<close>

theorem buildLimit_coerced_counterexample:
  "buildLimit ex_runtime (JBool True) JUndefined = ''FETCH FIRST true ROWS ONLY''
   \<and> buildLimit ex_runtime (JStr ''0'') JUndefined = ''FETCH FIRST 0 ROWS ONLY''"
  by (simp add: buildLimit_def isNaN_def ex_runtime_def is_digit_def Number_digits_def
      digit_val_def)

text \<open>The first of the two results is the same in every runtime.\<close>

lemma buildLimit_true:
  "buildLimit rt (JBool True) JUndefined = ''FETCH FIRST true ROWS ONLY''"
  by (simp add: buildLimit_def isNaN_def)

subsection \<open>Tokens in the SQL text\<close>

text \<open>
  The search is the leftmost match of the word followed by a longest run of digits; it
  finds nothing exactly when the text has no occurrence of the word followed by a digit.
\<close>

lemma strip_prefix_Some: "strip_prefix w s = Some r \<longleftrightarrow> s = w @ r"
  by (induction w s rule: strip_prefix.induct) auto

lemma match_here_SomeD:
  assumes "match_here w s = Some (ds, post)"
  shows "s = w @ ds @ post" and "ds \<noteq> []" and "list_all is_digit ds"
    and "post \<noteq> [] \<Longrightarrow> \<not> is_digit (hd post)"
proof -
  from assms obtain r where r: "strip_prefix w s = Some r"
    and ds: "ds = takeWhile is_digit r" "ds \<noteq> []" and post: "post = dropWhile is_digit r"
    by (auto simp: match_here_def Let_def split: option.splits if_splits)
  from r have "s = w @ r" by (simp add: strip_prefix_Some)
  then show "s = w @ ds @ post" using ds post by simp
  show "ds \<noteq> []" by fact
  show "list_all is_digit ds" using ds by (auto simp: list_all_iff dest: set_takeWhileD)
  show "post \<noteq> [] \<Longrightarrow> \<not> is_digit (hd post)" using post by (simp add: hd_dropWhile)
qed

lemma match_here_digit:
  assumes "is_digit d"
  shows "match_here w (w @ d # post) \<noteq> None"
proof -
  have "strip_prefix w (w @ d # post) = Some (d # post)" by (simp add: strip_prefix_Some)
  then show ?thesis using assms by (simp add: match_here_def Let_def)
qed

lemma re_search_SomeD:
  "re_search w s = Some (pre, ds, post) \<Longrightarrow>
     s = pre @ w @ ds @ post \<and> ds \<noteq> [] \<and> list_all is_digit ds
     \<and> (post \<noteq> [] \<longrightarrow> \<not> is_digit (hd post))"
proof (induction s arbitrary: pre)
  case Nil
  then show ?case
    by (auto split: option.splits dest: match_here_SomeD)
next
  case (Cons c cs)
  show ?case
  proof (cases "match_here w (c # cs)")
    case (Some m)
    then obtain ds' post' where m: "m = (ds', post')" by (cases m)
    with Some Cons.prems have "pre = []" "ds' = ds" "post' = post" by simp_all
    with Some m show ?thesis using match_here_SomeD [of w "c # cs" ds post] by simp
  next
    case None
    with Cons.prems obtain pre' where "re_search w cs = Some (pre', ds, post)" "pre = c # pre'"
      by (auto split: option.splits)
    with Cons.IH [of pre'] show ?thesis by simp
  qed
qed

lemma re_search_None_iff:
  "re_search w s = None \<longleftrightarrow> (\<forall>pre d post. is_digit d \<longrightarrow> s \<noteq> pre @ w @ d # post)"
proof
  assume "re_search w s = None"
  then show "\<forall>pre d post. is_digit d \<longrightarrow> s \<noteq> pre @ w @ d # post"
  proof (induction s)
    case Nil
    show ?case
    proof (intro allI impI notI)
      fix pre d post assume d: "is_digit d" and "[] = pre @ w @ d # post"
      then show False by simp
    qed
  next
    case (Cons c cs)
    then have here: "match_here w (c # cs) = None" and rest: "re_search w cs = None"
      by (auto split: option.splits)
    show ?case
    proof (intro allI impI notI)
      fix pre d post assume d: "is_digit d" and eq: "c # cs = pre @ w @ d # post"
      show False
      proof (cases pre)
        case Nil
        with eq here match_here_digit [OF d, of w post] show False by simp
      next
        case (Cons p pre')
        with eq have "cs = pre' @ w @ d # post" by simp
        with Cons.IH [OF rest] d show False by blast
      qed
    qed
  qed
next
  assume none: "\<forall>pre d post. is_digit d \<longrightarrow> s \<noteq> pre @ w @ d # post"
  show "re_search w s = None"
  proof (rule ccontr)
    assume "re_search w s \<noteq> None"
    then obtain pre ds post where "re_search w s = Some (pre, ds, post)" by auto
    from re_search_SomeD [OF this] obtain d ds' where
      "s = pre @ w @ (d # ds') @ post" "is_digit d"
      by (cases ds) auto
    with none show False by auto
  qed
qed

lemma take_token_Some:
  "re_search w s = Some (pre, ds, post) \<Longrightarrow> take_token w s = (Number_digits ds, pre @ post)"
  by (simp add: take_token_def)

lemma take_token_None: "re_search w s = None \<Longrightarrow> take_token w s = (0, s)"
  by (simp add: take_token_def)

lemma query_done_callbacks:
  "query_done True limit offset r =
     (if 0 < offset \<or> 0 < limit then
        (case reply_data r of
           None \<Rightarrow> [Throw TypeError]
         | Some rows \<Rightarrow>
             replicate (if reply_err r = None \<and> reply_more r then 2 else 1)
               (Callback (reply_err r) (Some (take limit (drop offset rows)))))
      else replicate (if reply_err r = None \<and> reply_more r then 2 else 1)
             (Callback (reply_err r) (reply_data r)))"
  by (simp add: query_done_def Let_def slice_def eval_nat_numeral split: option.splits)

lemmas token_eval = take_token_def limitRE_def offsetRE_def match_here_def is_digit_def
  Number_digits_def digit_val_def


subsection \<open>Statement execution\<close>

text \<open>
  \<open>slice(b, e)\<close> keeps the elements at the indices of the half-open range \<open>[b, e)\<close>
  that the list has; with \<open>b = offset\<close> and \<open>e = offset + limit\<close> these are
  \<open>take limit (drop offset rows)\<close>.
\<close>

lemma slice_range: "slice xs b e = map (\<lambda>i. xs ! i) [b ..< min e (length xs)]"
proof (rule nth_equalityI)
  show len: "length (slice xs b e) = length (map (\<lambda>i. xs ! i) [b ..< min e (length xs)])"
    by (auto simp: slice_def min_def)
  fix i assume "i < length (slice xs b e)"
  then have i: "i < e - b" "b + i < length xs" by (auto simp: slice_def)
  then have "slice xs b e ! i = xs ! (b + i)" by (simp add: slice_def)
  moreover have "map (\<lambda>i. xs ! i) [b ..< min e (length xs)] ! i = xs ! (b + i)"
    using i by simp
  ultimately show "slice xs b e ! i = map (\<lambda>i. xs ! i) [b ..< min e (length xs)] ! i" by simp
qed

lemma slice_offset_limit: "slice rows offset (offset + limit) = take limit (drop offset rows)"
  by (simp add: slice_def)

text \<open>
  C2. Every call of \<open>executeSQL\<close> should invoke the caller's callback exactly once, with
  an error or a well-formed result. The code does not: when the driver reports no error
  and more pending result sets, the callback is scheduled with \<open>process.nextTick\<close> and
  then also called directly, so it runs twice with the same arguments. When the driver
  passes an error and no row-set while a \<open>LIMIT\<close> token was taken from the text,
  \<open>data.slice\<close> raises before any callback; and the callback of \<open>update\<close> and
  \<open>destroyAll\<close> reads \<open>info.length\<close> of an absent \<open>info\<close>.
\<close>

theorem executeSQL_callback_twice:
  "executeSQL ex_self_more ex_options True ''SELECT * FROM T'' []
     = [Query ''SELECT * FROM T'' [], Callback None (Some ex_rows), Callback None (Some ex_rows)]
   \<and> executeSQL ex_self_failing ex_options True ''SELECT * FROM T LIMIT 1'' []
     = [Query ''SELECT * FROM T '' [], Throw TypeError]
   \<and> count_cb True (Some (Error ''engine error'' None)) None = [CountThrow TypeError]"
  by (simp add: executeSQL_def chosen_connection_def ex_self_more_def ex_self_failing_def
      ex_options_def token_eval query_done_def count_cb_def)

text \<open>
  C6, as amended. With client-side pagination (\<open>useLimitOffset\<close> off), \<open>executeSQL\<close>
  takes the first \<open>LIMIT n\<close> token and then the first \<open>OFFSET n\<close> token out of the text
  before it sends the text, and records their numbers (zero for a token that is absent).
  After a query without error, when at least one of the two numbers is not zero, every
  invocation of the callback receives the rows of the half-open range
  \<open>[offset, offset + limit)\<close> of the driver's row-set.
\<close>

theorem executeSQL_client_side_slice:
  assumes "\<not> useLimitOffset self"
    and "take_token limitRE sql0 = (limit, sql1)"
    and "take_token offsetRE sql1 = (offset, sql2)"
    and "reply_err (chosen_connection self options sql2 ps) = None"
    and "reply_data (chosen_connection self options sql2 ps) = Some rows"
    and "0 < limit \<or> 0 < offset"
  shows "executeSQL self options True sql0 ps =
           Query sql2 ps #
           replicate (if reply_more (chosen_connection self options sql2 ps) then 2 else 1)
             (Callback None (Some (take limit (drop offset rows))))
         \<and> (\<forall>pre ds post. re_search limitRE sql0 = Some (pre, ds, post) \<longrightarrow>
               sql0 = pre @ ''LIMIT '' @ ds @ post \<and> sql1 = pre @ post
               \<and> limit = Number_digits ds)
         \<and> (re_search limitRE sql0 = None \<longrightarrow> sql1 = sql0 \<and> limit = 0)
         \<and> (\<forall>pre ds post. re_search offsetRE sql1 = Some (pre, ds, post) \<longrightarrow>
               sql1 = pre @ ''OFFSET '' @ ds @ post \<and> sql2 = pre @ post
               \<and> offset = Number_digits ds)
         \<and> (re_search offsetRE sql1 = None \<longrightarrow> sql2 = sql1 \<and> offset = 0)"
proof -
  have run: "executeSQL self options True sql0 ps =
           Query sql2 ps #
           replicate (if reply_more (chosen_connection self options sql2 ps) then 2 else 1)
             (Callback None (Some (take limit (drop offset rows))))"
    using assms by (auto simp: executeSQL_def query_done_callbacks)
  have lim: "sql0 = pre @ ''LIMIT '' @ ds @ post \<and> sql1 = pre @ post \<and> limit = Number_digits ds"
    if "re_search limitRE sql0 = Some (pre, ds, post)" for pre ds post
    using that re_search_SomeD [OF that] assms(2) by (simp add: take_token_Some limitRE_def)
  have off: "sql1 = pre @ ''OFFSET '' @ ds @ post \<and> sql2 = pre @ post \<and> offset = Number_digits ds"
    if "re_search offsetRE sql1 = Some (pre, ds, post)" for pre ds post
    using that re_search_SomeD [OF that] assms(3) by (simp add: take_token_Some offsetRE_def)
  have none: "re_search limitRE sql0 = None \<longrightarrow> sql1 = sql0 \<and> limit = 0"
    "re_search offsetRE sql1 = None \<longrightarrow> sql2 = sql1 \<and> offset = 0"
    using assms(2,3) by (auto simp: take_token_None)
  show ?thesis using run lim off none by blast
qed

theorem executeSQL_client_side_slice_witness:
  "executeSQL ex_self ex_options True ''SELECT * FROM T LIMIT 2 OFFSET 1'' []
     = [Query ''SELECT * FROM T  '' [],
        Callback None (Some [JObj [(''id'', JNumber (Num 2))], JObj [(''id'', JNumber (Num 3))]])]"
proof -
  have a: "\<not> useLimitOffset ex_self" by (simp add: ex_self_def)
  have b: "take_token limitRE ''SELECT * FROM T LIMIT 2 OFFSET 1'' = (2, ''SELECT * FROM T  OFFSET 1'')"
    by (simp add: token_eval)
  have c: "take_token offsetRE ''SELECT * FROM T  OFFSET 1'' = (1, ''SELECT * FROM T  '')"
    by (simp add: token_eval)
  have d: "reply_err (chosen_connection ex_self ex_options ''SELECT * FROM T  '' []) = None"
    "reply_data (chosen_connection ex_self ex_options ''SELECT * FROM T  '' []) = Some ex_rows"
    by (simp_all add: chosen_connection_def ex_self_def ex_options_def)
  have e: "(0::nat) < 2 \<or> (0::nat) < 1" by simp
  show ?thesis
    using executeSQL_client_side_slice [OF a b c d e]
    by (simp add: chosen_connection_def ex_self_def ex_options_def ex_rows_def)
qed

text \<open>
  C6, as stated, fails when both recorded numbers are zero although a token is present:
  for \<open>SELECT * FROM T LIMIT 0\<close> the token is removed and the limit recorded is zero,
  the slicing is skipped and the callback receives all three rows of the driver, not the
  empty range \<open>[0, 0)\<close>.
\<close>

theorem executeSQL_limit_zero_counterexample:
  "take_token limitRE ''SELECT * FROM T LIMIT 0'' = (0, ''SELECT * FROM T '')
   \<and> take_token offsetRE ''SELECT * FROM T '' = (0, ''SELECT * FROM T '')
   \<and> executeSQL ex_self ex_options True ''SELECT * FROM T LIMIT 0'' []
       = [Query ''SELECT * FROM T '' [], Callback None (Some ex_rows)]
   \<and> ex_rows \<noteq> slice ex_rows 0 (0 + 0)"
  by (simp add: executeSQL_def chosen_connection_def ex_self_def ex_options_def token_eval
      query_done_def slice_def ex_rows_def)

text \<open>
  C10. With client-side pagination and a text that holds neither a \<open>LIMIT\<close> token nor
  an \<open>OFFSET\<close> token, the text is sent as it is and every invocation of the callback
  receives the driver's error and row-set as the driver passed them: nothing is sliced.
\<close>

theorem executeSQL_without_tokens:
  assumes "\<not> useLimitOffset self"
    and "re_search limitRE sql0 = None"
    and "re_search offsetRE sql0 = None"
  shows "executeSQL self options True sql0 ps =
           Query sql0 ps #
           replicate
             (if reply_err (chosen_connection self options sql0 ps) = None
                 \<and> reply_more (chosen_connection self options sql0 ps) then 2 else 1)
             (Callback (reply_err (chosen_connection self options sql0 ps))
                (reply_data (chosen_connection self options sql0 ps)))"
  using assms by (simp add: executeSQL_def Let_def take_token_None query_done_callbacks)

theorem executeSQL_without_tokens_witness:
  "executeSQL ex_self ex_options True ''SELECT * FROM T'' []
     = [Query ''SELECT * FROM T'' [], Callback None (Some ex_rows)]"
proof -
  have "\<not> useLimitOffset ex_self" by (simp add: ex_self_def)
  moreover have "re_search limitRE ''SELECT * FROM T'' = None"
    by (simp add: limitRE_def match_here_def)
  moreover have "re_search offsetRE ''SELECT * FROM T'' = None"
    by (simp add: offsetRE_def match_here_def)
  ultimately show ?thesis
    using executeSQL_without_tokens [of ex_self "''SELECT * FROM T''" ex_options "[]"]
    by (simp add: chosen_connection_def ex_self_def ex_options_def)
qed

subsection \<open>Column values\<close>

text \<open>
  For numbers, strings and booleans the value written is read back as it was; for the
  types written with \<open>JSON.stringify\<close> the value read back is the JSON round trip of
  the value written.
\<close>

lemma round_trip_Number:
  "toColumnValue rt (Some (typed ''Number'')) (JNumber x) = Inr (Value (JNumber x))
   \<and> fromColumnValue rt (Some (typed ''Number'')) (JNumber x) = Inr (JNumber x)"
  by (simp add: toColumnValue_def fromColumnValue_def typed_def)

lemma round_trip_String:
  "toColumnValue rt (Some (typed ''String'')) (JStr x) = Inr (Value (JStr x))
   \<and> fromColumnValue rt (Some (typed ''String'')) (JStr x) = Inr (JStr x)"
  by (simp add: toColumnValue_def fromColumnValue_def typed_def)

lemma round_trip_Boolean:
  "toColumnValue rt (Some (typed ''Boolean'')) (JBool b)
     = Inr (Value (JNumber (if b then Num 1 else Num 0)))
   \<and> fromColumnValue rt (Some (typed ''Boolean'')) (JNumber (if b then Num 1 else Num 0))
     = Inr (JBool b)"
  by (simp add: toColumnValue_def fromColumnValue_def typed_def)

lemma round_trip_composite:
  assumes "n \<in> set [''GeoPoint'', ''Point'', ''List'', ''Object'']" and "v \<noteq> JNull"
    and "JSON_stringify rt v \<noteq> JNull"
  shows "toColumnValue rt (Some (typed n)) v = Inr (Value (JSON_stringify rt v))
   \<and> fromColumnValue rt (Some (typed n)) (JSON_stringify rt v)
       = JSON_parse rt (ToString rt (JSON_stringify rt v))"
  using assms by (auto simp: toColumnValue_def fromColumnValue_def typed_def)

text \<open>
  C3. Reading back what \<open>toColumnValue\<close> wrote should recover the value. It does not
  for the \<open>Array\<close> and \<open>JSON\<close> types. An \<open>Array\<close> value is written as it is, and
  read back through \<open>JSON.parse\<close> of its text: for \<open>[1, 2]\<close> that text is \<open>1,2\<close>,
  which is no JSON, and \<open>[1]\<close> and \<open>[[1]]\<close> have the same text, so they are read
  back as the same value. A \<open>JSON\<close> value is written as \<open>String(val)\<close>: every plain
  object becomes \<open>[object Object]\<close>, whatever it holds.
\<close>

theorem column_value_round_trip_fails:
  "toColumnValue rt (Some (typed ''Array'')) (JArr [JNumber (Num 1), JNumber (Num 2)])
     = Inr (Value (JArr [JNumber (Num 1), JNumber (Num 2)]))
   \<and> fromColumnValue rt (Some (typed ''Array'')) (JArr [JNumber (Num 1), JNumber (Num 2)])
     = JSON_parse rt ''1,2''
   \<and> fromColumnValue rt (Some (typed ''Array'')) (JArr [JNumber (Num 1)])
     = fromColumnValue rt (Some (typed ''Array'')) (JArr [JArr [JNumber (Num 1)]])
   \<and> toColumnValue rt (Some (typed ''JSON'')) (JObj [(''a'', JNumber (Num 1))])
     = Inr (Value (JStr ''[object Object]''))
   \<and> toColumnValue rt (Some (typed ''JSON'')) (JObj [(''a'', JNumber (Num 2))])
     = Inr (Value (JStr ''[object Object]''))
   \<and> fromColumnValue rt (Some (typed ''JSON'')) (JStr ''[object Object]'')
     = JSON_parse rt ''[object Object]''"
  by (simp add: toColumnValue_def fromColumnValue_def typed_def join_strings_def
      number_text_def show_int_def show_nat.simps digit_char_def)

subsection \<open>The upsert statement\<close>

lemma sql_merge: "sql s \<noteq> [] \<Longrightarrow> sql (merge s t) = sql s @ '' '' @ sql t"
  by (simp add: merge_def append_psql_def)

lemma sql_merge_str: "sql s \<noteq> [] \<Longrightarrow> sql (merge_str s x) = sql s @ '' '' @ x"
  by (simp add: merge_str_def sql_merge new_psql_def)

lemma sql_merge_list: "sql s \<noteq> [] \<Longrightarrow> sql (merge_list s xs) = sql s @ '' '' @ sql (join_psql xs '' '')"
  by (simp add: merge_list_def sql_merge)

lemma foldl_append_psql_sql:
  assumes "\<forall>x \<in> set xs. sql x \<noteq> []" and "sql acc \<noteq> []"
  shows "sql (foldl (\<lambda>ps s. append_psql ps s sep) acc xs)
         = foldl (\<lambda>a s. a @ sep @ s) (sql acc) (map sql xs)"
  using assms
proof (induction xs arbitrary: acc)
  case Nil
  then show ?case by simp
next
  case (Cons x xs)
  have "sql (append_psql acc x sep) = sql acc @ sep @ sql x"
    using Cons.prems by (simp add: append_psql_def)
  moreover have "sql (append_psql acc x sep) \<noteq> []"
    using Cons.prems by (simp add: append_psql_def)
  ultimately show ?case using Cons.IH [of "append_psql acc x sep"] Cons.prems by simp
qed

lemma sql_join_psql:
  assumes "\<forall>x \<in> set xs. sql x \<noteq> []"
  shows "sql (join_psql xs sep) = join_strings sep (map sql xs)"
proof (cases xs)
  case Nil
  then show ?thesis by (simp add: join_psql_def join_strings_def new_psql_def)
next
  case (Cons x rest)
  have first: "append_psql (new_psql []) x sep = \<lparr>sql = sql x, params = params x\<rparr>"
    by (simp add: append_psql_def new_psql_def)
  have "sql (foldl (\<lambda>ps s. append_psql ps s sep) \<lparr>sql = sql x, params = params x\<rparr> rest)
        = foldl (\<lambda>a s. a @ sep @ s) (sql x) (map sql rest)"
    using foldl_append_psql_sql [of rest "\<lparr>sql = sql x, params = params x\<rparr>" sep] assms Cons
    by simp
  then show ?thesis using Cons first by (simp add: join_psql_def join_strings_def)
qed

lemma sql_update_set: "sql (join_psql (update_set flds) '','') = set_list flds"
proof -
  have "\<forall>x \<in> set (update_set flds). sql x \<noteq> []"
    by (auto simp: update_set_def assignment_def)
  then have "sql (join_psql (update_set flds) '','') = join_strings '','' (map sql (update_set flds))"
    by (rule sql_join_psql)
  also have "map sql (update_set flds)
      = map (\<lambda>f. fname f @ ''=('' @ sql (columnValue f) @ '')'')
          (filter (\<lambda>f. \<not> prop_id (fproperty f)) flds)"
    by (simp add: update_set_def assignment_def)
  finally show ?thesis by (simp add: set_list_def)
qed

text \<open>
  The only type \<open>buildColumnType\<close> refuses is a number declared \<open>DECIMAL\<close> with a
  scale and no precision; when it refuses none of the supplied fields, every cast is built.
\<close>

lemma buildColumnType_raises:
  "buildColumnType rt p = Inl e \<Longrightarrow>
     type_name p = ''Number'' \<and> e = Error ''Scale without Precision does not make sense'' None"
  by (auto simp: buildColumnType_def convertNumberType_def decimal_type_def Let_def
      split: if_splits option.splits)

lemma cast_values_total:
  "(\<forall>f \<in> set flds. \<exists>ty. buildColumnType rt (fproperty f) = Inr ty) \<Longrightarrow>
     \<exists>casts. cast_values rt flds = Inr casts \<and> length casts = length flds"
  by (induction flds) auto

lemma params_merge: "params (merge s t) = params s @ params t"
  by (simp add: merge_def append_psql_def)

lemma params_merge_str: "params (merge_str s x) = params s"
  by (simp add: merge_str_def params_merge new_psql_def)

lemma params_join_psql: "params (join_psql xs sep) = concat (map params xs)"
proof -
  have "params (foldl (\<lambda>ps s. append_psql ps s sep) acc xs) = params acc @ concat (map params xs)"
    for acc
    by (induction xs arbitrary: acc) (simp_all add: append_psql_def)
  then show ?thesis by (simp add: join_psql_def new_psql_def)
qed

lemma params_merge_list: "params (merge_list s xs) = params s @ concat (map params xs)"
  by (simp add: merge_list_def params_merge params_join_psql)

lemma params_update_set: "concat (map params (update_set flds)) = set_params flds"
  by (simp add: update_set_def set_params_def assignment_def comp_def)

lemma params_columns:
  "concat (map (\<lambda>x. params (case x of (prop, p) \<Rightarrow> \<lparr>sql = g prop, params = []\<rparr>)) xs) = []"
  by (induction xs) (simp_all split: prod.splits)

lemma params_cast_values:
  "cast_values rt flds = Inr casts \<Longrightarrow>
     concat (map params casts) = concat (map (\<lambda>f. params (columnValue f)) flds)"
proof (induction flds arbitrary: casts)
  case Nil
  then show ?case by simp
next
  case (Cons f fs)
  then obtain ty rest where "cast_values rt fs = Inr rest"
    and "casts = \<lparr>sql = ''CAST ('' @ sql (columnValue f) @ '' AS '' @ ty @ '')''
                          @ (if fs \<noteq> [] then '','' else []),
                   params = params (columnValue f)\<rparr> # rest"
    by (auto split: sum.splits)
  with Cons.IH [of rest] show ?case by simp
qed

text \<open>
  The statement for data that supplies a field, in full: its text, with the match written
  on the name of the id property, and its parameters, first those of the casts, then those
  of the inserted values, then those of the assignments.
\<close>

lemma updateOrCreate_stmt_text:
  assumes "flds \<noteq> []" and "cast_values rt flds = Inr casts"
  shows "\<exists>st. updateOrCreate_stmt rt schema md flds = Inr st
           \<and> sql st =
               ''MERGE INTO '' @ toUpperCase rt schema @ ''.'' @ tableEscaped md
               @ '' AS MT( ''
               @ sql (join_psql (map (\<lambda>(prop, p). new_psql (columnEscaped md prop)) (properties md)) '','')
               @ '' ) USING (SELECT * FROM TABLE( VALUES( ''
               @ sql (join_psql casts '' '')
               @ '' ))) AS VT('' @ join_strings '','' (map fname flds) @ '')''
               @ '' ON (MT.\"'' @ idName md @ ''\" = VT.\"'' @ idName md @ ''\")''
               @ '' WHEN NOT MATCHED THEN INSERT ('' @ join_strings '','' (map fname flds) @ '')''
               @ '' VALUES('' @ sql (join_psql (map columnValue flds) '','') @ '')''
               @ '' WHEN MATCHED THEN UPDATE SET '' @ set_list flds
           \<and> params st =
               concat (map (\<lambda>f. params (columnValue f)) flds)
               @ concat (map (\<lambda>f. params (columnValue f)) flds)
               @ set_params flds"
  using assms params_cast_values [OF assms(2)]
  by (simp add: updateOrCreate_stmt_def Let_def sql_merge sql_merge_str sql_merge_list
      sql_update_set new_psql_def params_merge params_merge_str params_merge_list
      params_join_psql params_update_set params_columns comp_def)





text \<open>
  When the id property is stored in a column of another name, the match still quotes the
  name of the property, while \<open>MT\<close> declares the column.
\<close>

lemma updateOrCreate_mapped_id:
  "\<exists>st. updateOrCreate_stmt ex_runtime ''admin'' (ex_model\<lparr>column := (\<lambda>p. if p = ''id'' then ''ID_COL'' else p)\<rparr>)
            ex_fields = Inr st
     \<and> sql st = ''MERGE INTO ADMIN.\"Customer\" AS MT( \"ID_COL\",\"name\" ) USING (SELECT * FROM TABLE( VALUES( CAST (? AS INTEGER), CAST (? AS VARCHAR(512)) ))) AS VT(\"id\",\"name\") ON (MT.\"id\" = VT.\"id\") WHEN NOT MATCHED THEN INSERT (\"id\",\"name\") VALUES(?,?) WHEN MATCHED THEN UPDATE SET \"name\"=(?)''"
proof -
  have a: "ex_fields \<noteq> []" by (simp add: ex_fields_def)
  have b: "cast_values ex_runtime ex_fields =
      Inr [\<lparr>sql = ''CAST (? AS INTEGER),'', params = [JNumber (Num 5)]\<rparr>,
           \<lparr>sql = ''CAST (? AS VARCHAR(512))'', params = [JStr ''a'']\<rparr>]"
    by (simp add: ex_fields_def typed_def buildColumnType_def convertNumberType_def
        convertTextType_def or_js_def number_eval)
  have u: "toUpperCase ex_runtime ''admin'' = ''ADMIN''"
    by (simp add: ex_runtime_def ascii_upper_def)
  show ?thesis
    using updateOrCreate_stmt_text [OF a b, of "''admin''"
        "ex_model\<lparr>column := (\<lambda>p. if p = ''id'' then ''ID_COL'' else p)\<rparr>"] u
    by (auto simp: ex_model_def ex_fields_def typed_def tableEscaped_def columnEscaped_def
        escapeName_def join_psql_def append_psql_def new_psql_def join_strings_def
        set_list_def set_params_def)
qed

end
